theory Spec2Isabelle
  imports Complex_Main "HOL-Library.Multiset"
begin

section \<open>Data model\<close>

text \<open>
  Exceptions of the Python code are values. \<open>ValueError\<close>, \<open>KeyError\<close> and
  \<open>TypeError\<close> are the ones the repository's own code raises or provokes;
  \<open>ExternalError\<close> stands for whatever an external library (PyMuPDF, PIL, CLIP,
  FAISS) raises.
\<close>

datatype error = ValueError string | KeyError string | TypeError string | ExternalError string

text \<open>Values held in a LangChain \<open>Document.metadata\<close> dictionary.\<close>

datatype pyval = PInt int | PStr string

text \<open>
  \<open>Document(page_content=..., metadata={...})\<close>. The metadata dictionary is an
  association list in insertion order; \<open>metadata.get(k)\<close> is \<open>map_of\<close>.
\<close>

record document =
  page_content :: string
  metadata :: "(string \<times> pyval) list"

type_synonym vec = "real list"

text \<open>\<open>config/settings.py\<close>\<close>

definition DEFAULT_K :: int where
  "DEFAULT_K = 5"

definition MAX_IMAGE_SIZE :: "nat \<times> nat" where
  "MAX_IMAGE_SIZE = (1024, 1024)"

definition IMAGE_FORMAT :: string where
  "IMAGE_FORMAT = ''PNG''"

text \<open>Python's \<open>k or d\<close> for an optional integer: \<open>None\<close> and \<open>0\<close> are falsy.\<close>

definition py_or :: "int option \<Rightarrow> int \<Rightarrow> int" where
  "py_or k d = (case k of None \<Rightarrow> d | Some n \<Rightarrow> if n = 0 then d else n)"

section \<open>The embedding provider (\<open>backend/processing/embeddings.py\<close>)\<close>

text \<open>
  \<open>embed_text\<close> and \<open>embed_image\<close> run the pretrained CLIP model, which is outside the
  repository (\<open>backend.models.clip_model\<close> is not among the sources); the wrappers add
  nothing but a re-raise. Python passes any object to either method, so both take a
  \<open>query\<close>: a text or an image. \<open>dimension\<close> is the dimensionality of the model's
  embeddings. The provider is a parameter of everything that embeds.
\<close>

record pil_image =
  img_size :: "nat \<times> nat"
  img_data :: string

datatype query = TextQ string | ImageQ pil_image

record provider =
  embed_text :: "query \<Rightarrow> error + vec"
  embed_image :: "query \<Rightarrow> error + vec"
  dimension :: nat

section \<open>The vector store (\<open>backend/processing/vector_store.py\<close>)\<close>

text \<open>
  The FAISS store of \<open>langchain_community\<close> is an external library. What a store
  holds is the list of (document, embedding) pairs in insertion order; a persisted store
  is a file-system entry at a path. The library's four entry points used by the
  repository are the fields of \<open>faiss\<close>; the manager below is parametric in them.
  \<open>load_local\<close> takes the path and its \<open>embeddings\<close> argument.
\<close>

type_synonym store = "(document \<times> vec) list"

type_synonym filesystem = "string \<rightharpoonup> store"

record faiss =
  from_embeddings :: "(string \<times> vec) list \<Rightarrow> (string \<times> pyval) list list \<Rightarrow> error + store"
  similarity_search_by_vector :: "store \<Rightarrow> vec \<Rightarrow> int \<Rightarrow> error + document list"
  save_local :: "store \<Rightarrow> string \<Rightarrow> filesystem \<Rightarrow> error + filesystem"
  load_local :: "string \<Rightarrow> provider option \<Rightarrow> filesystem \<Rightarrow> error + store"

text \<open>\<open>class VectorStoreManager\<close>: the only attribute is \<open>self.vector_store\<close>.\<close>

record VectorStoreManager =
  vector_store :: "store option"

definition VectorStoreManager_init :: VectorStoreManager where
  "VectorStoreManager_init = \<lparr>vector_store = None\<rparr>"

text \<open>
  \<open>np.array(embeddings)\<close> on a list of vectors: the two-dimensional array of the same
  rows when all vectors have one length; \<open>ValueError\<close> (an inhomogeneous shape)
  otherwise.
\<close>

definition np_array :: "vec list \<Rightarrow> error + vec list" where
  "np_array embeddings =
     (case embeddings of
        [] \<Rightarrow> Inr []
      | e # es \<Rightarrow>
          if \<forall>x\<in>set es. length x = length e then Inr embeddings
          else Inl (ValueError ''setting an array element with a sequence''))"

text \<open>
  \<open>create_vector_store(docs, embeddings)\<close>: the result and the manager afterwards.
  The assignment to \<open>self.vector_store\<close> happens only when
  \<open>FAISS.from_embeddings\<close> has returned; the \<open>except\<close> clause prints and re-raises.
\<close>

definition create_vector_store ::
  "faiss \<Rightarrow> VectorStoreManager \<Rightarrow> document list \<Rightarrow> vec list
   \<Rightarrow> (error + store) \<times> VectorStoreManager" where
  "create_vector_store lib self docs embeddings =
     (if docs = [] \<or> embeddings = []
      then (Inl (ValueError ''Documents and embeddings cannot be empty''), self)
      else if length docs \<noteq> length embeddings
      then (Inl (ValueError ''Number of documents must match number of embeddings''), self)
      else (case np_array embeddings of
              Inl e \<Rightarrow> (Inl e, self)
            | Inr embeddings_array \<Rightarrow>
            case from_embeddings lib (zip (map page_content docs) embeddings_array)
                   (map metadata docs) of
              Inl e \<Rightarrow> (Inl e, self)
            | Inr vs \<Rightarrow> (Inr vs, self\<lparr>vector_store := Some vs\<rparr>)))"

text \<open>\<open>search_by_vector(query_embedding, k=None)\<close>\<close>

definition search_by_vector ::
  "faiss \<Rightarrow> VectorStoreManager \<Rightarrow> vec \<Rightarrow> int option \<Rightarrow> error + document list" where
  "search_by_vector lib self query_embedding k =
     (case vector_store self of
        None \<Rightarrow> Inl (ValueError ''Vector store not initialized'')
      | Some vs \<Rightarrow> similarity_search_by_vector lib vs query_embedding (py_or k DEFAULT_K))"

definition is_initialized :: "VectorStoreManager \<Rightarrow> bool" where
  "is_initialized self = (vector_store self \<noteq> None)"

text \<open>\<open>save_vector_store(path)\<close>: the file system afterwards, or the error.\<close>

definition save_vector_store ::
  "faiss \<Rightarrow> VectorStoreManager \<Rightarrow> string \<Rightarrow> filesystem \<Rightarrow> error + filesystem" where
  "save_vector_store lib self path fs =
     (case vector_store self of
        None \<Rightarrow> Inl (ValueError ''Vector store not initialized'')
      | Some vs \<Rightarrow> save_local lib vs path fs)"

text \<open>
  \<open>load_vector_store(path)\<close> calls \<open>FAISS.load_local(path, embeddings=None)\<close>: the
  library receives the path and no embedding provider.
\<close>

definition load_vector_store ::
  "faiss \<Rightarrow> VectorStoreManager \<Rightarrow> string \<Rightarrow> filesystem
   \<Rightarrow> (error + store) \<times> VectorStoreManager" where
  "load_vector_store lib self path fs =
     (case load_local lib path None fs of
        Inl e \<Rightarrow> (Inl e, self)
      | Inr vs \<Rightarrow> (Inr vs, self\<lparr>vector_store := Some vs\<rparr>))"

subsection \<open>The index of the specification\<close>

text \<open>
  The four entry points of \<open>langchain_community.vectorstores.FAISS\<close> are code the
  repository calls and does not contain. Section 4.4 of the specification is their
  contract, and \<open>spec_faiss\<close> is the library that follows it. Arithmetic is exact: real
  numbers, no rounding.
\<close>

text \<open>
  Modelled from the spec: the similarity the index ranks by, which is inside the missing
  FAISS library. Section 4.4: "highest cosine similarity to \<open>query_embedding\<close>".
\<close>

definition dot :: "vec \<Rightarrow> vec \<Rightarrow> real" where
  "dot a b = sum_list (map2 (*) a b)"

definition cosine_similarity :: "vec \<Rightarrow> vec \<Rightarrow> real" where
  "cosine_similarity a b = dot a b / (sqrt (dot a a) * sqrt (dot b b))"

text \<open>
  Modelled from the spec: \<open>FAISS.from_embeddings\<close>, missing from the sources. Section
  4.4: \<open>build\<close> on well-formed input constructs the index of the given (ContentUnit,
  Embedding) pairs; each unit is the text with the metadata at the same position.
\<close>

definition spec_from_embeddings ::
  "(string \<times> vec) list \<Rightarrow> (string \<times> pyval) list list \<Rightarrow> error + store" where
  "spec_from_embeddings text_embeddings metadatas =
     Inr (map (\<lambda>((t, e), m). (\<lparr>page_content = t, metadata = m\<rparr>, e))
            (zip text_embeddings metadatas))"

text \<open>
  Modelled from the spec: \<open>FAISS.similarity_search_by_vector\<close>, missing from the
  sources. Section 4.4: \<open>k\<close> is "clamped to the number of indexed items when \<open>k\<close>
  exceeds that count (never error on large \<open>k\<close>)"; the result is "the \<open>k\<close>
  ContentUnits whose Embeddings have highest cosine similarity to \<open>query_embedding\<close>,
  in descending similarity order; ties broken by original insertion order (stable)". The
  specification says nothing about a negative \<open>k\<close>; no unit is returned then.
\<close>

definition spec_similarity_search_by_vector ::
  "store \<Rightarrow> vec \<Rightarrow> int \<Rightarrow> error + document list" where
  "spec_similarity_search_by_vector vs q k =
     Inr (map fst (take (min (nat k) (length vs))
            (sort_key (\<lambda>(d, e). - cosine_similarity e q) vs)))"

text \<open>
  Modelled from the spec: \<open>FAISS.save_local\<close>, missing from the sources. Section 4.4:
  \<open>save(path)\<close> persists "the full set of (ContentUnit, Embedding) pairs".
\<close>

definition spec_save_local :: "store \<Rightarrow> string \<Rightarrow> filesystem \<Rightarrow> error + filesystem" where
  "spec_save_local vs path fs = Inr (fs(path \<mapsto> vs))"

text \<open>
  Modelled from the spec: \<open>FAISS.load_local\<close>, missing from the sources. Section 4.4:
  \<open>load(path)\<close> restores the persisted pairs, and "loading must reject files whose
  embedding dimensionality does not match the currently configured Embedding Provider".
  The provider is the \<open>embeddings\<close> argument: a file is restored only when a provider
  is given and every persisted embedding has its dimensionality; without a provider
  nothing is loaded.
\<close>

definition spec_load_local :: "string \<Rightarrow> provider option \<Rightarrow> filesystem \<Rightarrow> error + store" where
  "spec_load_local path embeddings fs =
     (case fs path of
        None \<Rightarrow> Inl (ExternalError ''no index at path'')
      | Some vs \<Rightarrow>
      case embeddings of
        None \<Rightarrow> Inl (ValueError ''no embedding provider to load the index for'')
      | Some P \<Rightarrow>
          if \<forall>e\<in>set (map snd vs). length e = dimension P then Inr vs
          else Inl (ValueError ''embedding dimensionality does not match the provider''))"

definition spec_faiss :: faiss where
  "spec_faiss = \<lparr>from_embeddings = spec_from_embeddings,
                 similarity_search_by_vector = spec_similarity_search_by_vector,
                 save_local = spec_save_local,
                 load_local = spec_load_local\<rparr>"

section \<open>The retriever (\<open>backend/retrieval/retriever.py\<close>)\<close>

text \<open>
  Each retrieval returns its result together with the trace of the calls it made to the
  embedding provider and to the vector store manager, in order.
\<close>

datatype call = EmbedText query | EmbedImage query | SearchByVector vec int

definition retrieve_by_text ::
  "provider \<Rightarrow> faiss \<Rightarrow> VectorStoreManager \<Rightarrow> query \<Rightarrow> int option
   \<Rightarrow> (error + document list) \<times> call list" where
  "retrieve_by_text P lib vsm query_text k =
     (let k' = py_or k DEFAULT_K in
      case embed_text P query_text of
        Inl e \<Rightarrow> (Inl e, [EmbedText query_text])
      | Inr query_embedding \<Rightarrow>
          (search_by_vector lib vsm query_embedding (Some k'),
           [EmbedText query_text, SearchByVector query_embedding k']))"

definition retrieve_by_image ::
  "provider \<Rightarrow> faiss \<Rightarrow> VectorStoreManager \<Rightarrow> query \<Rightarrow> int option
   \<Rightarrow> (error + document list) \<times> call list" where
  "retrieve_by_image P lib vsm image_data k =
     (let k' = py_or k DEFAULT_K in
      case embed_image P image_data of
        Inl e \<Rightarrow> (Inl e, [EmbedImage image_data])
      | Inr query_embedding \<Rightarrow>
          (search_by_vector lib vsm query_embedding (Some k'),
           [EmbedImage image_data, SearchByVector query_embedding k']))"

definition retrieve_multimodal ::
  "provider \<Rightarrow> faiss \<Rightarrow> VectorStoreManager \<Rightarrow> query \<Rightarrow> string \<Rightarrow> int option
   \<Rightarrow> (error + document list) \<times> call list" where
  "retrieve_multimodal P lib vsm q query_type k =
     (if query_type = ''text'' then retrieve_by_text P lib vsm q k
      else if query_type = ''image'' then retrieve_by_image P lib vsm q k
      else (Inl (ValueError (''Unsupported query type: '' @ query_type)), []))"

definition get_similar_documents ::
  "faiss \<Rightarrow> VectorStoreManager \<Rightarrow> vec \<Rightarrow> int option
   \<Rightarrow> (error + document list) \<times> call list" where
  "get_similar_documents lib vsm embedding_vector k =
     (let k' = py_or k DEFAULT_K in
      (search_by_vector lib vsm embedding_vector (Some k'),
       [SearchByVector embedding_vector k']))"

section \<open>Strings\<close>

text \<open>Python's \<open>str(n)\<close> for an integer, as used by the f-strings.\<close>

definition digit_char :: "nat \<Rightarrow> char" where
  "digit_char n = ''0123456789'' ! n"

function string_of_nat :: "nat \<Rightarrow> string" where
  "string_of_nat n =
     (if n < 10 then [digit_char n] else string_of_nat (n div 10) @ [digit_char (n mod 10)])"
  by pat_completeness auto

termination
  by (relation "measure id") auto

declare string_of_nat.simps [simp del]

definition str_int :: "int \<Rightarrow> string" where
  "str_int i = (if i < 0 then CHR ''-'' # string_of_nat (nat (- i)) else string_of_nat (nat i))"

definition nl :: string where
  "nl = [CHR 0x0A]"

text \<open>\<open>sep.join(xs)\<close>\<close>

fun join :: "string \<Rightarrow> string list \<Rightarrow> string" where
  "join sep [] = []"
| "join sep [x] = x"
| "join sep (x # y # ys) = x @ sep @ join sep (y # ys)"

text \<open>
  \<open>s.strip()\<close> removes leading and trailing whitespace. A character here is a code
  point below 256; those for which \<open>str.isspace\<close> holds are 9 to 13, 28 to 32, 133
  (U+0085) and 160 (U+00A0).
\<close>

definition py_isspace :: "char \<Rightarrow> bool" where
  "py_isspace c =
     (let n = (of_char c :: nat)
      in (9 \<le> n \<and> n \<le> 13) \<or> (28 \<le> n \<and> n \<le> 32) \<or> n = 133 \<or> n = 160)"

definition strip :: "string \<Rightarrow> string" where
  "strip s = rev (dropWhile py_isspace (rev (dropWhile py_isspace s)))"

section \<open>The PDF processor (\<open>backend/processing/pdf_processor.py\<close>)\<close>

text \<open>
  A page of an opened document is what its accessors give: \<open>page.get_text()\<close>,
  \<open>page.get_images(full=True)\<close> (each entry reduced to its \<open>xref\<close>, the only
  component the code reads) and \<open>page.parent.extract_image(xref)\<close>. Each may raise.
\<close>

record page =
  get_text :: "error + string"
  get_images :: "error + nat list"
  extract_image :: "nat \<Rightarrow> error + string"

datatype pdf_source = PdfPath string | PdfBytes string

text \<open>
  The external libraries the processor and the response generator call: PyMuPDF's
  \<open>open\<close> (by path, or on a byte stream), the text splitter's chunking of a string
  (\<open>RecursiveCharacterTextSplitter\<close>, which does not raise), PIL's
  \<open>Image.open(...).convert("RGB")\<close>, \<open>thumbnail\<close>, and \<open>save\<close> followed by
  base64 encoding.
\<close>

record env =
  pymupdf_open_path :: "string \<Rightarrow> error + page list"
  pymupdf_open_stream :: "string \<Rightarrow> error + page list"
  split_text :: "string \<Rightarrow> string list"
  Image_open :: "string \<Rightarrow> error + pil_image"
  thumbnail :: "pil_image \<Rightarrow> nat \<times> nat \<Rightarrow> error + pil_image"
  save_b64 :: "pil_image \<Rightarrow> string \<Rightarrow> error + string"

text \<open>
  \<open>text_splitter.split_documents([temp_doc])\<close>: one document per chunk, each with a
  copy of the metadata of \<open>temp_doc\<close>.
\<close>

definition split_documents :: "env \<Rightarrow> document \<Rightarrow> document list" where
  "split_documents E d =
     map (\<lambda>c. \<lparr>page_content = c, metadata = metadata d\<rparr>) (split_text E (page_content d))"

text \<open>The loop over the chunks of \<open>_process_page_text\<close>, on \<open>(docs, embeddings)\<close>.\<close>

fun embed_chunks ::
  "provider \<Rightarrow> document list \<Rightarrow> document list \<times> vec list \<Rightarrow> document list \<times> vec list" where
  "embed_chunks P [] acc = acc"
| "embed_chunks P (chunk # chunks) (docs, embeddings) =
     (case embed_text P (TextQ (page_content chunk)) of
        Inl e \<Rightarrow> embed_chunks P chunks (docs, embeddings)
      | Inr embedding \<Rightarrow> embed_chunks P chunks (docs @ [chunk], embeddings @ [embedding]))"

text \<open>\<open>_process_page_text(page, page_num)\<close>\<close>

definition process_page_text ::
  "provider \<Rightarrow> env \<Rightarrow> page \<Rightarrow> nat \<Rightarrow> error + document list \<times> vec list" where
  "process_page_text P E pg page_num =
     (case get_text pg of
        Inl e \<Rightarrow> Inl e
      | Inr text \<Rightarrow>
          if strip text \<noteq> []
          then (let temp_doc = \<lparr>page_content = text,
                                 metadata = [(''page'', PInt (int page_num)),
                                             (''type'', PStr ''text'')]\<rparr>;
                    text_chunks = split_documents E temp_doc
                in Inr (embed_chunks P text_chunks ([], [])))
          else Inr ([], []))"

text \<open>
  The body of the loop of \<open>_process_page_images\<close> for one image, on
  \<open>(docs, embeddings, image_store)\<close>. Everything is inside the \<open>try\<close>; the handler
  prints and continues with the state as it is at the moment of the exception.
\<close>

type_synonym image_store = "string \<rightharpoonup> string"

definition image_id_of :: "nat \<Rightarrow> nat \<Rightarrow> string" where
  "image_id_of page_num img_index =
     ''page_'' @ str_int (int page_num) @ ''_img_'' @ str_int (int img_index)"

definition image_doc_of :: "nat \<Rightarrow> string \<Rightarrow> document" where
  "image_doc_of page_num image_id =
     \<lparr>page_content = ''[Image: '' @ image_id @ '']'',
      metadata = [(''page'', PInt (int page_num)), (''type'', PStr ''image''),
                  (''image_id'', PStr image_id)]\<rparr>"

definition process_image ::
  "provider \<Rightarrow> env \<Rightarrow> page \<Rightarrow> nat \<Rightarrow> nat \<times> nat
   \<Rightarrow> document list \<times> vec list \<times> image_store \<Rightarrow> document list \<times> vec list \<times> image_store" where
  "process_image P E pg page_num ix acc =
     (case acc of (docs, embeddings, image_store) \<Rightarrow>
      case ix of (img_index, xref) \<Rightarrow>
      case extract_image pg xref of
        Inl e \<Rightarrow> acc
      | Inr image_bytes \<Rightarrow>
      case Image_open E image_bytes of
        Inl e \<Rightarrow> acc
      | Inr opened \<Rightarrow>
      case (if fst (img_size opened) > fst MAX_IMAGE_SIZE
               \<or> snd (img_size opened) > snd MAX_IMAGE_SIZE
            then thumbnail E opened MAX_IMAGE_SIZE else Inr opened) of
        Inl e \<Rightarrow> acc
      | Inr pil_image \<Rightarrow>
      let image_id = image_id_of page_num img_index in
      case save_b64 E pil_image IMAGE_FORMAT of
        Inl e \<Rightarrow> acc
      | Inr img_base64 \<Rightarrow>
      let image_store' = image_store(image_id \<mapsto> img_base64) in
      case embed_image P (ImageQ pil_image) of
        Inl e \<Rightarrow> (docs, embeddings, image_store')
      | Inr embedding \<Rightarrow>
          (docs @ [image_doc_of page_num image_id], embeddings @ [embedding], image_store'))"

fun process_images ::
  "provider \<Rightarrow> env \<Rightarrow> page \<Rightarrow> nat \<Rightarrow> (nat \<times> nat) list
   \<Rightarrow> document list \<times> vec list \<times> image_store \<Rightarrow> document list \<times> vec list \<times> image_store" where
  "process_images P E pg page_num [] acc = acc"
| "process_images P E pg page_num (ix # ixs) acc =
     process_images P E pg page_num ixs (process_image P E pg page_num ix acc)"

text \<open>\<open>_process_page_images(page, page_num)\<close>\<close>

definition process_page_images ::
  "provider \<Rightarrow> env \<Rightarrow> page \<Rightarrow> nat \<Rightarrow> error + document list \<times> vec list \<times> image_store" where
  "process_page_images P E pg page_num =
     (case get_images pg of
        Inl e \<Rightarrow> Inl e
      | Inr imgs \<Rightarrow> Inr (process_images P E pg page_num (enumerate 0 imgs) ([], [], Map.empty)))"

text \<open>
  The loop over the pages of \<open>process_pdf\<close>, on
  \<open>(all_docs, all_embeddings, image_data_store)\<close>. The optional progress callback
  receives a fraction and returns nothing; it is left out.
\<close>

fun process_pages ::
  "provider \<Rightarrow> env \<Rightarrow> (nat \<times> page) list \<Rightarrow> document list \<times> vec list \<times> image_store
   \<Rightarrow> error + document list \<times> vec list \<times> image_store" where
  "process_pages P E [] acc = Inr acc"
| "process_pages P E ((i, pg) # rest) (all_docs, all_embeddings, image_data_store) =
     (case process_page_text P E pg i of
        Inl e \<Rightarrow> Inl e
      | Inr (text_docs, text_embeddings) \<Rightarrow>
      case process_page_images P E pg i of
        Inl e \<Rightarrow> Inl e
      | Inr (image_docs, image_embeddings, page_image_store) \<Rightarrow>
          process_pages P E rest
            (all_docs @ text_docs @ image_docs,
             all_embeddings @ text_embeddings @ image_embeddings,
             image_data_store ++ page_image_store))"

text \<open>
  Opening the document: \<open>pymupdf.open(path)\<close> for a string,
  \<open>pymupdf.open(stream=..., filetype="pdf")\<close> otherwise.
\<close>

definition open_pdf :: "env \<Rightarrow> pdf_source \<Rightarrow> error + page list" where
  "open_pdf E pdf_path_or_bytes =
     (case pdf_path_or_bytes of
        PdfPath s \<Rightarrow> pymupdf_open_path E s
      | PdfBytes b \<Rightarrow> pymupdf_open_stream E b)"

text \<open>\<open>process_pdf(pdf_path_or_bytes)\<close>; the \<open>except\<close> clause prints and re-raises.\<close>

definition process_pdf ::
  "provider \<Rightarrow> env \<Rightarrow> pdf_source \<Rightarrow> error + document list \<times> vec list \<times> image_store" where
  "process_pdf P E pdf_path_or_bytes =
     (case open_pdf E pdf_path_or_bytes of
        Inl e \<Rightarrow> Inl e
      | Inr doc \<Rightarrow> process_pages P E (enumerate 0 doc) ([], [], Map.empty))"

section \<open>The response generator (\<open>backend/retrieval/response_generator.py\<close>)\<close>

text \<open>
  The content of a \<open>HumanMessage\<close> is a list of blocks: \<open>{"type": "text", ...}\<close> or
  \<open>{"type": "image_url", "image_url": {"url": ...}}\<close>.
\<close>

datatype block = TextBlock string | ImageUrlBlock string

definition is_text_doc :: "document \<Rightarrow> bool" where
  "is_text_doc d = (map_of (metadata d) ''type'' = Some (PStr ''text''))"

definition is_image_doc :: "document \<Rightarrow> bool" where
  "is_image_doc d = (map_of (metadata d) ''type'' = Some (PStr ''image''))"

text \<open>
  \<open>doc.metadata['page'] + 1\<close>: \<open>KeyError\<close> without the key, \<open>TypeError\<close> on a string.
\<close>

definition page_plus_one :: "document \<Rightarrow> error + int" where
  "page_plus_one d =
     (case map_of (metadata d) ''page'' of
        None \<Rightarrow> Inl (KeyError ''page'')
      | Some (PInt n) \<Rightarrow> Inr (n + 1)
      | Some (PStr s) \<Rightarrow> Inl (TypeError ''page''))"

text \<open>The list comprehension under \<open>"\n\n".join\<close>.\<close>

fun text_lines :: "document list \<Rightarrow> error + string list" where
  "text_lines [] = Inr []"
| "text_lines (d # ds) =
     (case page_plus_one d of
        Inl e \<Rightarrow> Inl e
      | Inr n \<Rightarrow>
      case text_lines ds of
        Inl e \<Rightarrow> Inl e
      | Inr ls \<Rightarrow> Inr ((''[Page '' @ str_int n @ '']: '' @ page_content d) # ls))"

text \<open>
  \<open>image_id = doc.metadata.get("image_id")\<close> and the guard
  \<open>image_id and image_id in image_data_store\<close>: the payload when the guard holds. The
  store's keys are strings, so an integer is never among them.
\<close>

definition lookup_image :: "document \<Rightarrow> image_store \<Rightarrow> string option" where
  "lookup_image d image_data_store =
     (case map_of (metadata d) ''image_id'' of
        Some (PStr s) \<Rightarrow> if s \<noteq> [] then image_data_store s else None
      | _ \<Rightarrow> None)"

text \<open>
  The loop \<open>for doc in image_docs\<close>, appending to \<open>content\<close>; \<open>pre\<close> is what stands
  before \<open>[Image from page\<close> in the label (a newline for a text query, nothing for an
  image query).
\<close>

fun add_images :: "string \<Rightarrow> document list \<Rightarrow> image_store \<Rightarrow> block list \<Rightarrow> error + block list" where
  "add_images pre [] image_data_store content = Inr content"
| "add_images pre (d # ds) image_data_store content =
     (case lookup_image d image_data_store of
        None \<Rightarrow> add_images pre ds image_data_store content
      | Some payload \<Rightarrow>
      case page_plus_one d of
        Inl e \<Rightarrow> Inl e
      | Inr n \<Rightarrow>
          add_images pre ds image_data_store
            (content @ [TextBlock (pre @ ''[Image from page '' @ str_int n @ '']:'' @ nl),
                        ImageUrlBlock (''data:image/png;base64,'' @ payload)]))"

text \<open>The optional text block: \<open>if text_docs: ... content.append(...)\<close>.\<close>

definition add_text_context :: "string \<Rightarrow> document list \<Rightarrow> block list \<Rightarrow> error + block list" where
  "add_text_context title text_docs content =
     (if text_docs \<noteq> []
      then (case text_lines text_docs of
              Inl e \<Rightarrow> Inl e
            | Inr ls \<Rightarrow> Inr (content @ [TextBlock (title @ nl @ join (nl @ nl) ls @ nl)]))
      else Inr content)"

text \<open>The fixed texts of the two messages.\<close>

definition text_query_instruction :: string where
  "text_query_instruction =
     nl @ nl @ ''Please answer the question based on the provided text and images.''"

definition image_query_intro :: string where
  "image_query_intro =
     ''I have provided you with an input image and relevant content from a PDF document. Please analyze the input image and provide information based on the related content found in the PDF.'' @ nl @ nl @ ''Input Image:''"

definition image_query_instruction :: string where
  "image_query_instruction =
     nl @ nl @ ''Based on the input image and the related content from the PDF, please provide a comprehensive answer about what the input image shows and how it relates to the information in the PDF document.''"

definition create_text_query_message ::
  "string \<Rightarrow> document list \<Rightarrow> image_store \<Rightarrow> error + block list" where
  "create_text_query_message qry retrieved_docs image_data_store =
     (let content = [TextBlock (''Question: '' @ qry @ nl @ nl @ ''Context:'' @ nl)];
          text_docs = filter is_text_doc retrieved_docs;
          image_docs = filter is_image_doc retrieved_docs
      in case add_text_context ''Text excerpts:'' text_docs content of
           Inl e \<Rightarrow> Inl e
         | Inr content1 \<Rightarrow>
         case add_images nl image_docs image_data_store content1 of
           Inl e \<Rightarrow> Inl e
         | Inr content2 \<Rightarrow> Inr (content2 @ [TextBlock text_query_instruction]))"

definition create_image_query_message ::
  "env \<Rightarrow> pil_image \<Rightarrow> document list \<Rightarrow> image_store \<Rightarrow> error + block list" where
  "create_image_query_message E input_image retrieved_docs image_data_store =
     (case save_b64 E input_image ''PNG'' of
        Inl e \<Rightarrow> Inl e
      | Inr input_img_base64 \<Rightarrow>
      let content =
            [TextBlock image_query_intro,
             ImageUrlBlock (''data:image/png;base64,'' @ input_img_base64)];
          text_docs = filter is_text_doc retrieved_docs;
          image_docs = filter is_image_doc retrieved_docs;
          content0 = content @ [TextBlock (nl @ nl @ ''Related content from PDF:'' @ nl)]
      in case add_text_context ''Text content:'' text_docs content0 of
           Inl e \<Rightarrow> Inl e
         | Inr content1 \<Rightarrow>
         case (if image_docs \<noteq> []
               then add_images [] image_docs image_data_store
                      (content1 @ [TextBlock (nl @ ''Related images from PDF:'' @ nl)])
               else Inr content1) of
           Inl e \<Rightarrow> Inl e
         | Inr content2 \<Rightarrow> Inr (content2 @ [TextBlock image_query_instruction]))"

text \<open>
  \<open>generate_response\<close> sends the message to the external model, here the parameter
  \<open>llm\<close>; \<open>process_text_query\<close> and \<open>process_image_query\<close> compose the two steps.
\<close>

definition process_text_query ::
  "(block list \<Rightarrow> error + string) \<Rightarrow> string \<Rightarrow> document list \<Rightarrow> image_store \<Rightarrow> error + string" where
  "process_text_query llm qry retrieved_docs image_data_store =
     (case create_text_query_message qry retrieved_docs image_data_store of
        Inl e \<Rightarrow> Inl e
      | Inr message \<Rightarrow> llm message)"

definition process_image_query ::
  "(block list \<Rightarrow> error + string) \<Rightarrow> env \<Rightarrow> pil_image \<Rightarrow> document list \<Rightarrow> image_store
   \<Rightarrow> error + string" where
  "process_image_query llm E input_image retrieved_docs image_data_store =
     (case create_image_query_message E input_image retrieved_docs image_data_store of
        Inl e \<Rightarrow> Inl e
      | Inr message \<Rightarrow> llm message)"

section \<open>Notions used in the statements\<close>

text \<open>Embeddings are ragged when two of them differ in length.\<close>

definition ragged :: "vec list \<Rightarrow> bool" where
  "ragged embs = (\<exists>a\<in>set embs. \<exists>b\<in>set embs. length a \<noteq> length b)"

text \<open>
  The order in which a search must list two stored positions \<open>i\<close> and \<open>j\<close>: higher
  cosine similarity to the query first, the earlier insertion first among equals.
\<close>

definition ranked_before :: "vec list \<Rightarrow> vec \<Rightarrow> nat \<Rightarrow> nat \<Rightarrow> bool" where
  "ranked_before embs q i j =
     (cosine_similarity (embs ! j) q < cosine_similarity (embs ! i) q
      \<or> (cosine_similarity (embs ! i) q = cosine_similarity (embs ! j) q \<and> i < j))"

text \<open>
  The ingestion policy in the words of the specification (sections 4.3 and 9): each
  unit's attempt yields the unit with its embedding, or nothing; the output is the units
  that succeeded, page by page, the text chunks of a page before its images. A text chunk
  succeeds when its embedding does; an image succeeds when extracting, decoding,
  resizing, re-encoding and embedding all do.
\<close>

definition text_unit :: "provider \<Rightarrow> document \<Rightarrow> (document \<times> vec) option" where
  "text_unit P chunk =
     (case embed_text P (TextQ (page_content chunk)) of
        Inl e \<Rightarrow> None
      | Inr v \<Rightarrow> Some (chunk, v))"

definition image_unit ::
  "provider \<Rightarrow> env \<Rightarrow> page \<Rightarrow> nat \<Rightarrow> nat \<times> nat \<Rightarrow> (document \<times> vec) option" where
  "image_unit P E pg page_num ix =
     (case extract_image pg (snd ix) of
        Inl e \<Rightarrow> None
      | Inr image_bytes \<Rightarrow>
      case Image_open E image_bytes of
        Inl e \<Rightarrow> None
      | Inr opened \<Rightarrow>
      case (if fst (img_size opened) > fst MAX_IMAGE_SIZE
               \<or> snd (img_size opened) > snd MAX_IMAGE_SIZE
            then thumbnail E opened MAX_IMAGE_SIZE else Inr opened) of
        Inl e \<Rightarrow> None
      | Inr pil_image \<Rightarrow>
      case save_b64 E pil_image IMAGE_FORMAT of
        Inl e \<Rightarrow> None
      | Inr img_base64 \<Rightarrow>
      case embed_image P (ImageQ pil_image) of
        Inl e \<Rightarrow> None
      | Inr v \<Rightarrow> Some (image_doc_of page_num (image_id_of page_num (fst ix)), v))"

definition page_chunks :: "env \<Rightarrow> nat \<Rightarrow> page \<Rightarrow> document list" where
  "page_chunks E page_num pg =
     (case get_text pg of
        Inl e \<Rightarrow> []
      | Inr content \<Rightarrow>
          if strip content = [] then []
          else map (\<lambda>c. \<lparr>page_content = c,
                          metadata = [(''page'', PInt (int page_num)), (''type'', PStr ''text'')]\<rparr>)
                 (split_text E content))"

definition page_image_refs :: "page \<Rightarrow> (nat \<times> nat) list" where
  "page_image_refs pg = (case get_images pg of Inl e \<Rightarrow> [] | Inr imgs \<Rightarrow> enumerate 0 imgs)"

definition page_units :: "provider \<Rightarrow> env \<Rightarrow> nat \<times> page \<Rightarrow> (document \<times> vec) list" where
  "page_units P E ip =
     List.map_filter (text_unit P) (page_chunks E (fst ip) (snd ip))
     @ List.map_filter (image_unit P E (snd ip) (fst ip)) (page_image_refs (snd ip))"

definition page_parses :: "page \<Rightarrow> bool" where
  "page_parses pg = (\<not> isl (get_text pg) \<and> \<not> isl (get_images pg))"

text \<open>
  The order of the ingestion output between an earlier unit \<open>d\<close> and a later unit
  \<open>d'\<close>: the page of \<open>d\<close> is not after the page of \<open>d'\<close>, and on the same page an
  image does not stand before a text chunk.
\<close>

definition doc_page :: "document \<Rightarrow> int option" where
  "doc_page d = (case map_of (metadata d) ''page'' of Some (PInt n) \<Rightarrow> Some n | _ \<Rightarrow> None)"

definition unit_order :: "document \<Rightarrow> document \<Rightarrow> bool" where
  "unit_order d d' =
     (case doc_page d of
        None \<Rightarrow> False
      | Some p \<Rightarrow>
      case doc_page d' of
        None \<Rightarrow> False
      | Some p' \<Rightarrow> p < p' \<or> (p = p' \<and> \<not> (is_image_doc d \<and> is_text_doc d')))"

text \<open>
  A ContentUnit is a document as ingestion makes them: a text chunk of a page, with the
  metadata \<open>page\<close> and \<open>type\<close>, or the image document of a page and an image
  index, whose \<open>image_id\<close> is \<open>page_{p}_img_{i}\<close>.
\<close>

definition content_unit :: "document \<Rightarrow> bool" where
  "content_unit d =
     ((\<exists>page_num c. d = \<lparr>page_content = c,
                            metadata = [(''page'', PInt (int page_num)),
                                        (''type'', PStr ''text'')]\<rparr>)
      \<or> (\<exists>page_num img_index. d = image_doc_of page_num (image_id_of page_num img_index)))"

text \<open>
  The image blocks of a message are its \<open>image_url\<close> entries, in order. A retrieved
  unit has a stored image when it is an image unit whose \<open>image_id\<close> is a key of the
  image store; \<open>stored_image_urls\<close> lists the data URLs of those units, in retrieval
  order. An image unit without a stored image is \<open>unstored\<close>.
\<close>

fun image_urls :: "block list \<Rightarrow> string list" where
  "image_urls [] = []"
| "image_urls (TextBlock t # bs) = image_urls bs"
| "image_urls (ImageUrlBlock u # bs) = u # image_urls bs"

definition stored_image :: "document \<Rightarrow> image_store \<Rightarrow> string option" where
  "stored_image d image_data_store =
     (if is_image_doc d
      then (case map_of (metadata d) ''image_id'' of
              Some (PStr s) \<Rightarrow> image_data_store s
            | _ \<Rightarrow> None)
      else None)"

definition stored_image_urls :: "document list \<Rightarrow> image_store \<Rightarrow> string list" where
  "stored_image_urls docs image_data_store =
     List.map_filter
       (\<lambda>d. map_option (\<lambda>payload. ''data:image/png;base64,'' @ payload)
              (stored_image d image_data_store)) docs"

definition unstored_image :: "image_store \<Rightarrow> document \<Rightarrow> bool" where
  "unstored_image image_data_store d = (is_image_doc d \<and> stored_image d image_data_store = None)"

text \<open>
  What the two loops over \<open>image_docs\<close> show of any list of documents: the image of a
  document of type \<open>image\<close> that passes the guard of \<open>lookup_image\<close>.
\<close>

definition shown_image :: "document \<Rightarrow> image_store \<Rightarrow> string option" where
  "shown_image d image_data_store =
     (if is_image_doc d then lookup_image d image_data_store else None)"

definition shown_image_urls :: "document list \<Rightarrow> image_store \<Rightarrow> string list" where
  "shown_image_urls docs image_data_store =
     List.map_filter
       (\<lambda>d. map_option (\<lambda>payload. ''data:image/png;base64,'' @ payload)
              (shown_image d image_data_store)) docs"

definition unshown_image :: "image_store \<Rightarrow> document \<Rightarrow> bool" where
  "unshown_image image_data_store d = (is_image_doc d \<and> lookup_image d image_data_store = None)"

section \<open>Example data\<close>

text \<open>
  A small index of two text chunks and one image, with unit-norm embeddings; a provider
  that fails on the text \<open>unembeddable\<close> and on the image whose data is
  \<open>unembeddable\<close>.
\<close>

definition ex_docs :: "document list" where
  "ex_docs = [\<lparr>page_content = ''alpha'', metadata = [(''page'', PInt 0), (''type'', PStr ''text'')]\<rparr>,
              \<lparr>page_content = ''beta'', metadata = [(''page'', PInt 0), (''type'', PStr ''text'')]\<rparr>,
              \<lparr>page_content = ''[Image: page_1_img_0]'',
               metadata = [(''page'', PInt 1), (''type'', PStr ''image''),
                           (''image_id'', PStr ''page_1_img_0'')]\<rparr>]"

definition ex_embs :: "vec list" where
  "ex_embs = [[0, 1], [3/5, 4/5], [1, 0]]"

definition ex_provider :: provider where
  "ex_provider =
     \<lparr>embed_text = (\<lambda>q. case q of
          TextQ s \<Rightarrow> if s = ''unembeddable'' then Inl (ExternalError ''embed_text'') else Inr [1, 0]
        | ImageQ i \<Rightarrow> Inl (ExternalError ''embed_text'')),
      embed_image = (\<lambda>q. case q of
          ImageQ i \<Rightarrow> if img_data i = ''unembeddable'' then Inl (ExternalError ''embed_image'')
                      else Inr [0, 1]
        | TextQ s \<Rightarrow> Inl (ExternalError ''embed_image'')),
      dimension = 2\<rparr>"

definition ex_ragged_embs :: "vec list" where
  "ex_ragged_embs = [[1, 0], [1]]"

definition ex_manager :: VectorStoreManager where
  "ex_manager = \<lparr>vector_store = Some (zip ex_docs ex_embs)\<rparr>"

text \<open>
  A document environment: \<open>report.pdf\<close> has two pages; the first has three chunks of
  text, the second of which cannot be embedded, and three images, of which \<open>xref 7\<close>
  cannot be embedded and \<open>xref 9\<close> cannot be decoded; the second page has blank text and
  one image. \<open>figure.pdf\<close> is one page with the image that cannot be embedded;
  \<open>damaged.pdf\<close> has a page whose text cannot be read.
\<close>

definition ex_extract :: "nat \<Rightarrow> error + string" where
  "ex_extract xref =
     (if xref = 7 then Inr ''unembeddable''
      else if xref = 9 then Inr ''garbage''
      else if xref = 3 then Inr ''chart'' else Inr ''photo'')"

definition ex_page0 :: page where
  "ex_page0 = \<lparr>get_text = Inr ''intro unembeddable outro'', get_images = Inr [3, 7, 9],
               extract_image = ex_extract\<rparr>"

definition ex_page1 :: page where
  "ex_page1 = \<lparr>get_text = Inr ''  '', get_images = Inr [4], extract_image = ex_extract\<rparr>"

definition ex_page_fig :: page where
  "ex_page_fig = \<lparr>get_text = Inr [], get_images = Inr [7], extract_image = ex_extract\<rparr>"

definition ex_page_damaged :: page where
  "ex_page_damaged = \<lparr>get_text = Inl (ExternalError ''damaged page''), get_images = Inr [],
                      extract_image = ex_extract\<rparr>"

definition ex_env :: env where
  "ex_env =
     \<lparr>pymupdf_open_path = (\<lambda>p. if p = ''report.pdf'' then Inr [ex_page0, ex_page1]
                               else if p = ''figure.pdf'' then Inr [ex_page_fig]
                               else if p = ''damaged.pdf'' then Inr [ex_page_fig, ex_page_damaged]
                               else Inl (ExternalError ''cannot open'')),
      pymupdf_open_stream = (\<lambda>b. Inl (ExternalError ''not a pdf'')),
      split_text = (\<lambda>s. if s = ''intro unembeddable outro''
                         then [''intro'', ''unembeddable'', ''outro''] else [s]),
      Image_open = (\<lambda>b. if b = ''garbage'' then Inl (ExternalError ''cannot identify image'')
                         else Inr \<lparr>img_size = (640, 480), img_data = b\<rparr>),
      thumbnail = (\<lambda>im sz. Inr (im\<lparr>img_size := sz\<rparr>)),
      save_b64 = (\<lambda>im fmt. Inr (''b64:'' @ img_data im))\<rparr>"

definition ex_report_docs :: "document list" where
  "ex_report_docs =
     [\<lparr>page_content = ''intro'', metadata = [(''page'', PInt 0), (''type'', PStr ''text'')]\<rparr>,
      \<lparr>page_content = ''outro'', metadata = [(''page'', PInt 0), (''type'', PStr ''text'')]\<rparr>,
      \<lparr>page_content = ''[Image: page_0_img_0]'',
       metadata = [(''page'', PInt 0), (''type'', PStr ''image''),
                   (''image_id'', PStr ''page_0_img_0'')]\<rparr>,
      \<lparr>page_content = ''[Image: page_1_img_0]'',
       metadata = [(''page'', PInt 1), (''type'', PStr ''image''),
                   (''image_id'', PStr ''page_1_img_0'')]\<rparr>]"

definition ex_report_embs :: "vec list" where
  "ex_report_embs = [[1, 0], [1, 0], [0, 1], [0, 1]]"

definition ex_report_store :: image_store where
  "ex_report_store = [''page_0_img_0'' \<mapsto> ''b64:chart'',
                      ''page_0_img_1'' \<mapsto> ''b64:unembeddable'',
                      ''page_1_img_0'' \<mapsto> ''b64:photo'']"

text \<open>
  Retrieved units and an image store for the response generator: the first unit is an
  image unit whose image is not in the store. A persisted index whose embeddings have
  three components, where the example provider has two.
\<close>

definition ex_missing_image :: document where
  "ex_missing_image =
     \<lparr>page_content = ''[Image: page_9_img_9]'',
      metadata = [(''page'', PInt 9), (''type'', PStr ''image''),
                  (''image_id'', PStr ''page_9_img_9'')]\<rparr>"

definition ex_retrieved :: "document list" where
  "ex_retrieved = ex_missing_image # ex_docs"

definition ex_image_store :: image_store where
  "ex_image_store = [''page_1_img_0'' \<mapsto> ''b64:photo'']"

definition ex_message :: "block list" where
  "ex_message =
     [TextBlock (''Question: What is shown?'' @ nl @ nl @ ''Context:'' @ nl),
      TextBlock (''Text excerpts:'' @ nl @ ''[Page 1]: alpha'' @ nl @ nl @ ''[Page 1]: beta'' @ nl),
      TextBlock (nl @ ''[Image from page 2]:'' @ nl),
      ImageUrlBlock ''data:image/png;base64,b64:photo'',
      TextBlock text_query_instruction]"

definition ex_stale_store :: store where
  "ex_stale_store =
     [(\<lparr>page_content = ''gamma'',
        metadata = [(''page'', PInt 0), (''type'', PStr ''text'')]\<rparr>, [1, 0, 0])]"

definition ex_fs :: filesystem where
  "ex_fs = [''stale_index'' \<mapsto> ex_stale_store]"

section \<open>Properties of the vector store\<close>

text \<open>
  Claim C3. Searching, or saving, while no index is installed (the freshly constructed
  manager in particular) raises \<open>ValueError("Vector store not initialized")\<close>, for every
  query embedding, every \<open>k\<close>, every path and every behaviour of the library; a
  build or a load that fails installs none.
\<close>

theorem search_and_save_before_build_fail:
  "search_by_vector lib VectorStoreManager_init q k
     = Inl (ValueError ''Vector store not initialized'')
   \<and> save_vector_store lib VectorStoreManager_init path fs
     = Inl (ValueError ''Vector store not initialized'')
   \<and> (vector_store self = None \<longrightarrow>
        search_by_vector lib self q k = Inl (ValueError ''Vector store not initialized'')
        \<and> save_vector_store lib self path fs
            = Inl (ValueError ''Vector store not initialized''))
   \<and> (vector_store self = None \<and> isl (fst (create_vector_store lib self docs embs)) \<longrightarrow>
        vector_store (snd (create_vector_store lib self docs embs)) = None)
   \<and> (vector_store self = None \<and> isl (fst (load_vector_store lib self path fs)) \<longrightarrow>
        vector_store (snd (load_vector_store lib self path fs)) = None)"
  by (auto simp: search_by_vector_def save_vector_store_def VectorStoreManager_init_def
        create_vector_store_def load_vector_store_def split: sum.splits if_splits)

theorem search_and_save_before_build_fail_witness:
  "vector_store VectorStoreManager_init = None
   \<and> search_by_vector spec_faiss VectorStoreManager_init [1, 0] (Some 3)
       = Inl (ValueError ''Vector store not initialized'')
   \<and> save_vector_store spec_faiss VectorStoreManager_init ''no_index'' ex_fs
       = Inl (ValueError ''Vector store not initialized'')
   \<and> isl (fst (create_vector_store spec_faiss VectorStoreManager_init [] []))
   \<and> vector_store (snd (create_vector_store spec_faiss VectorStoreManager_init [] [])) = None
   \<and> isl (fst (load_vector_store spec_faiss VectorStoreManager_init ''no_index'' ex_fs))
   \<and> vector_store (snd (load_vector_store spec_faiss VectorStoreManager_init ''no_index'' ex_fs))
       = None"
proof -
  note t = search_and_save_before_build_fail [where lib = spec_faiss and q = "[1, 0]"
      and k = "Some 3" and path = "''no_index''" and fs = ex_fs
      and self = VectorStoreManager_init and docs = "[]" and embs = "[]"]
  have n: "vector_store VectorStoreManager_init = None"
    by (simp add: VectorStoreManager_init_def)
  have c: "isl (fst (create_vector_store spec_faiss VectorStoreManager_init [] []))"
    by (simp add: create_vector_store_def)
  have l: "isl (fst (load_vector_store spec_faiss VectorStoreManager_init ''no_index'' ex_fs))"
    by (simp add: load_vector_store_def spec_faiss_def spec_load_local_def ex_fs_def)
  from t n c l show ?thesis by blast
qed

lemma np_array_eq:
  "np_array embs = (if ragged embs then Inl (ValueError ''setting an array element with a sequence'')
                    else Inr embs)"
proof (cases embs)
  case Nil
  then show ?thesis by (simp add: np_array_def ragged_def)
next
  case (Cons e es)
  have "ragged (e # es) \<longleftrightarrow> (\<exists>x\<in>set es. length x \<noteq> length e)"
  proof
    assume "ragged (e # es)"
    then obtain a b where ab: "a \<in> set (e # es)" "b \<in> set (e # es)" "length a \<noteq> length b"
      unfolding ragged_def by blast
    show "\<exists>x\<in>set es. length x \<noteq> length e"
    proof (rule ccontr)
      assume "\<not> ?thesis"
      then have "\<forall>x\<in>set (e # es). length x = length e" by simp
      with ab show False by metis
    qed
  next
    assume "\<exists>x\<in>set es. length x \<noteq> length e"
    then show "ragged (e # es)" unfolding ragged_def by auto
  qed
  with Cons show ?thesis by (simp add: np_array_def)
qed

text \<open>
  Claim C2, as stated, at two units with embeddings of two components and of one: both
  lists are non-empty and of equal length, and \<open>create_vector_store\<close> raises the
  \<open>ValueError\<close> of \<open>np.array\<close>.
\<close>

theorem ragged_embeddings_raise_ValueError:
  "take 2 ex_docs \<noteq> [] \<and> ex_ragged_embs \<noteq> []
   \<and> length (take 2 ex_docs) = length ex_ragged_embs
   \<and> create_vector_store spec_faiss ex_manager (take 2 ex_docs) ex_ragged_embs
       = (Inl (ValueError ''setting an array element with a sequence''), ex_manager)"
  by (simp add: create_vector_store_def np_array_def ex_docs_def ex_ragged_embs_def)

text \<open>
  Claim C2, amended. \<open>create_vector_store\<close> raises \<open>ValueError\<close> when one of the two
  lists is empty, when their lengths differ, and when the embeddings are ragged. For
  every behaviour of the library these are its only failures besides a failure of
  \<open>FAISS.from_embeddings\<close> itself, and its only \<open>ValueError\<close>s besides one raised
  there. Every failure leaves \<open>self.vector_store\<close> as it was; a success installs the
  index that was built.
\<close>

theorem create_vector_store_failures:
  "(docs = [] \<or> embs = [] \<or> length docs \<noteq> length embs \<or> ragged embs
      \<longrightarrow> (\<exists>m. create_vector_store lib self docs embs = (Inl (ValueError m), self)))
   \<and> (isl (fst (create_vector_store lib self docs embs))
      \<longleftrightarrow> docs = [] \<or> embs = [] \<or> length docs \<noteq> length embs \<or> ragged embs
          \<or> isl (from_embeddings lib (zip (map page_content docs) embs) (map metadata docs)))
   \<and> ((\<exists>m. fst (create_vector_store lib self docs embs) = Inl (ValueError m))
      \<longleftrightarrow> docs = [] \<or> embs = [] \<or> length docs \<noteq> length embs \<or> ragged embs
          \<or> (\<exists>m. from_embeddings lib (zip (map page_content docs) embs) (map metadata docs)
                    = Inl (ValueError m)))
   \<and> (isl (fst (create_vector_store lib self docs embs))
      \<longrightarrow> snd (create_vector_store lib self docs embs) = self)
   \<and> (\<forall>vs. fst (create_vector_store lib self docs embs) = Inr vs
      \<longrightarrow> snd (create_vector_store lib self docs embs) = self\<lparr>vector_store := Some vs\<rparr>)"
proof (cases "docs = [] \<or> embs = [] \<or> length docs \<noteq> length embs \<or> ragged embs")
  case True
  then show ?thesis
    by (auto simp: create_vector_store_def np_array_eq)
next
  case False
  then have "create_vector_store lib self docs embs =
     (case from_embeddings lib (zip (map page_content docs) embs) (map metadata docs) of
        Inl e \<Rightarrow> (Inl e, self)
      | Inr vs \<Rightarrow> (Inr vs, self\<lparr>vector_store := Some vs\<rparr>))"
    by (simp add: create_vector_store_def np_array_eq)
  with False show ?thesis
    by (cases "from_embeddings lib (zip (map page_content docs) embs) (map metadata docs)")
       simp_all
qed

theorem create_vector_store_failures_witness:
  "create_vector_store spec_faiss ex_manager [] []
     = (Inl (ValueError ''Documents and embeddings cannot be empty''), ex_manager)
   \<and> create_vector_store spec_faiss ex_manager ex_docs [[1, 0]]
     = (Inl (ValueError ''Number of documents must match number of embeddings''), ex_manager)
   \<and> ragged ex_ragged_embs
   \<and> isl (fst (create_vector_store spec_faiss ex_manager (take 2 ex_docs) ex_ragged_embs))
   \<and> snd (create_vector_store spec_faiss ex_manager (take 2 ex_docs) ex_ragged_embs) = ex_manager
   \<and> \<not> ragged ex_embs
   \<and> \<not> isl (fst (create_vector_store spec_faiss ex_manager ex_docs ex_embs))
   \<and> snd (create_vector_store spec_faiss ex_manager ex_docs ex_embs)
       = ex_manager\<lparr>vector_store := Some (zip ex_docs ex_embs)\<rparr>"
proof -
  have r: "ragged ex_ragged_embs" "\<not> ragged ex_embs"
    by (auto simp: ragged_def ex_ragged_embs_def ex_embs_def)
  have a: "create_vector_store spec_faiss ex_manager [] []
     = (Inl (ValueError ''Documents and embeddings cannot be empty''), ex_manager)"
    by (simp add: create_vector_store_def)
  have b: "create_vector_store spec_faiss ex_manager ex_docs [[1, 0]]
     = (Inl (ValueError ''Number of documents must match number of embeddings''), ex_manager)"
    by (simp add: create_vector_store_def ex_docs_def)
  note t = create_vector_store_failures [where lib = spec_faiss and self = ex_manager
      and docs = "take 2 ex_docs" and embs = ex_ragged_embs]
  from t r(1) have c: "isl (fst (create_vector_store spec_faiss ex_manager (take 2 ex_docs)
      ex_ragged_embs))"
    by blast
  with t have d: "snd (create_vector_store spec_faiss ex_manager (take 2 ex_docs)
      ex_ragged_embs) = ex_manager"
    by blast
  have e: "create_vector_store spec_faiss ex_manager ex_docs ex_embs
     = (Inr (zip ex_docs ex_embs), ex_manager\<lparr>vector_store := Some (zip ex_docs ex_embs)\<rparr>)"
    by (simp add: create_vector_store_def np_array_def spec_faiss_def spec_from_embeddings_def
          ex_docs_def ex_embs_def)
  from a b r c d e show ?thesis by simp
qed



subsection \<open>Stable sorting, by positions\<close>

lemma zip_docs_rebuild:
  "length docs = length embs \<Longrightarrow>
   map (\<lambda>((t, e), m). (\<lparr>page_content = t, metadata = m\<rparr>, e))
     (zip (zip (map page_content docs) embs) (map metadata docs)) = zip docs embs"
  by (induction docs embs rule: list_induct2) simp_all

lemma map_insort_key:
  "map g (insort_key (\<lambda>a. f (g a)) x ys) = insort_key f (g x) (map g ys)"
  by (induction ys) simp_all

lemma map_sort_key:
  "map g (sort_key (\<lambda>a. f (g a)) xs) = sort_key f (map g xs)"
  by (induction xs) (simp_all add: map_insort_key)

lemma insort_key_stable_step:
  fixes h :: "'a \<Rightarrow> 'k::linorder" and r :: "'a \<Rightarrow> nat"
  assumes "sorted_wrt (\<lambda>a b. h a < h b \<or> (h a = h b \<and> r a < r b)) ys"
    and "\<forall>y\<in>set ys. r x < r y"
  shows "sorted_wrt (\<lambda>a b. h a < h b \<or> (h a = h b \<and> r a < r b)) (insort_key h x ys)"
  using assms
proof (induction ys)
  case Nil
  then show ?case by simp
next
  case (Cons y ys)
  show ?case
  proof (cases "h x \<le> h y")
    case True
    have "\<forall>z\<in>set ys. h y \<le> h z" using Cons.prems(1) by auto
    with True Cons.prems show ?thesis by (auto simp: le_less)
  next
    case False
    with Cons show ?thesis by (auto simp: set_insort_key)
  qed
qed

lemma sort_key_stable_index:
  fixes h :: "'a \<Rightarrow> 'k::linorder" and r :: "'a \<Rightarrow> nat"
  assumes "sorted_wrt (\<lambda>a b. r a < r b) xs"
  shows "sorted_wrt (\<lambda>a b. h a < h b \<or> (h a = h b \<and> r a < r b)) (sort_key h xs)"
  using assms
proof (induction xs)
  case Nil
  then show ?case by simp
next
  case (Cons x xs)
  then show ?case by (auto intro!: insort_key_stable_step)
qed

lemma sort_key_index_form:
  fixes f :: "'a \<Rightarrow> 'k::linorder"
  shows "\<exists>idx. sort_key f xs = map ((!) xs) idx \<and> distinct idx \<and> set idx = {..<length xs}
           \<and> sorted_wrt (\<lambda>i j. f (xs ! i) < f (xs ! j) \<or> (f (xs ! i) = f (xs ! j) \<and> i < j)) idx"
proof -
  define ps where "ps = enumerate 0 xs"
  define s where "s = sort_key (\<lambda>a. f (snd a)) ps"
  define idx where "idx = map fst s"
  have ps_snd: "map snd ps = xs" and ps_fst: "map fst ps = [0..<length xs]"
    by (simp_all add: ps_def)
  have el: "\<forall>p\<in>set ps. snd p = xs ! fst p \<and> fst p < length xs"
    by (auto simp: ps_def in_set_enumerate_eq)
  have set_s: "set s = set ps" by (simp add: s_def)
  have "map snd s = sort_key f xs"
    unfolding s_def using map_sort_key [of snd f ps] ps_snd by simp
  moreover have "map snd s = map ((!) xs) idx"
    unfolding idx_def using el set_s by (auto simp: map_eq_conv)
  ultimately have a: "sort_key f xs = map ((!) xs) idx" by simp
  have "mset idx = mset (map fst ps)"
    unfolding idx_def s_def by simp
  then have m: "mset idx = mset [0..<length xs]" by (simp add: ps_fst)
  have b: "distinct idx"
    using m by (metis distinct_upt mset_eq_imp_distinct_iff)
  have c: "set idx = {..<length xs}"
    using m by (metis atLeast_upt mset_eq_setD)
  have "sorted_wrt (<) (map fst ps)"
    by (simp only: ps_fst sorted_wrt_upt)
  then have "sorted_wrt (\<lambda>a b. fst a < fst b) ps"
    by (simp add: sorted_wrt_map)
  then have st: "sorted_wrt (\<lambda>a b. f (snd a) < f (snd b)
                \<or> (f (snd a) = f (snd b) \<and> fst a < fst b)) s"
    unfolding s_def by (rule sort_key_stable_index)
  have "sorted_wrt (\<lambda>a b. f (xs ! fst a) < f (xs ! fst b)
                \<or> (f (xs ! fst a) = f (xs ! fst b) \<and> fst a < fst b)) s"
  proof (rule sorted_wrt_mono_rel [OF _ st])
    fix a b
    assume "a \<in> set s" "b \<in> set s"
    then have "snd a = xs ! fst a" "snd b = xs ! fst b"
      using el set_s by blast+
    moreover assume "f (snd a) < f (snd b) \<or> (f (snd a) = f (snd b) \<and> fst a < fst b)"
    ultimately show "f (xs ! fst a) < f (xs ! fst b)
                \<or> (f (xs ! fst a) = f (xs ! fst b) \<and> fst a < fst b)"
      by simp
  qed
  then have d: "sorted_wrt (\<lambda>i j. f (xs ! i) < f (xs ! j) \<or> (f (xs ! i) = f (xs ! j) \<and> i < j)) idx"
    unfolding idx_def by (simp add: sorted_wrt_map)
  from a b c d show ?thesis by blast
qed

lemma create_vector_store_spec_ok:
  assumes "create_vector_store spec_faiss self0 docs embs = (Inr vs, self)"
  shows "docs \<noteq> [] \<and> length docs = length embs \<and> vs = zip docs embs
         \<and> vector_store self = Some vs"
  using assms
  by (auto simp: create_vector_store_def np_array_eq spec_faiss_def spec_from_embeddings_def
        zip_docs_rebuild split: if_splits)

text \<open>
  Claim C1. After a successful \<open>create_vector_store\<close> on \<open>n\<close> pairs, a search with
  \<open>k \<ge> n\<close> does not raise; its result lists every stored position exactly once, in
  descending cosine similarity to the query, equal similarities in insertion order.
\<close>

theorem search_returns_all_ranked:
  assumes built: "create_vector_store spec_faiss self0 docs embs = (Inr vs, self)"
    and large: "int (length docs) \<le> k"
  shows "\<exists>idx. search_by_vector spec_faiss self q (Some k) = Inr (map ((!) docs) idx)
           \<and> distinct idx \<and> set idx = {..<length docs}
           \<and> sorted_wrt (ranked_before embs q) idx"
proof -
  from create_vector_store_spec_ok [OF built]
  have ne: "docs \<noteq> []" and len: "length docs = length embs" and vs: "vs = zip docs embs"
    and st: "vector_store self = Some vs" by simp_all
  have k0: "k \<noteq> 0" using ne large by auto
  have lvs: "length vs = length docs" using vs len by simp
  define key where "key = (\<lambda>(d :: document, e). - cosine_similarity e q)"
  have res: "search_by_vector spec_faiss self q (Some k) = Inr (map fst (sort_key key vs))"
    using st k0 large lvs
    by (simp add: search_by_vector_def spec_faiss_def spec_similarity_search_by_vector_def
          py_or_def key_def min_def)
  obtain idx where i1: "sort_key key vs = map ((!) vs) idx" and i2: "distinct idx"
    and i3: "set idx = {..<length vs}"
    and i4: "sorted_wrt (\<lambda>i j. key (vs ! i) < key (vs ! j)
                \<or> (key (vs ! i) = key (vs ! j) \<and> i < j)) idx"
    using sort_key_index_form [of key vs] by blast
  have inb: "\<forall>i\<in>set idx. i < length docs \<and> i < length embs" using i3 lvs len by auto
  have "map fst (sort_key key vs) = map ((!) docs) idx"
    unfolding i1 using inb vs by (simp add: map_eq_conv)
  moreover have "sorted_wrt (ranked_before embs q) idx"
  proof (rule sorted_wrt_mono_rel [OF _ i4])
    fix i j
    assume "i \<in> set idx" "j \<in> set idx"
    then have "vs ! i = (docs ! i, embs ! i)" "vs ! j = (docs ! j, embs ! j)"
      using inb vs by simp_all
    moreover assume "key (vs ! i) < key (vs ! j) \<or> (key (vs ! i) = key (vs ! j) \<and> i < j)"
    ultimately show "ranked_before embs q i j"
      by (auto simp: key_def ranked_before_def)
  qed
  ultimately show ?thesis using res i2 i3 lvs by auto
qed

theorem search_returns_all_ranked_witness:
  "create_vector_store spec_faiss VectorStoreManager_init ex_docs ex_embs
     = (Inr (zip ex_docs ex_embs), \<lparr>vector_store = Some (zip ex_docs ex_embs)\<rparr>)
   \<and> int (length ex_docs) \<le> 7
   \<and> (\<exists>idx. search_by_vector spec_faiss \<lparr>vector_store = Some (zip ex_docs ex_embs)\<rparr> [1, 0] (Some 7)
              = Inr (map ((!) ex_docs) idx)
         \<and> distinct idx \<and> set idx = {..<length ex_docs}
         \<and> sorted_wrt (ranked_before ex_embs [1, 0]) idx)"
proof -
  have b: "create_vector_store spec_faiss VectorStoreManager_init ex_docs ex_embs
     = (Inr (zip ex_docs ex_embs), \<lparr>vector_store = Some (zip ex_docs ex_embs)\<rparr>)"
    by (simp add: create_vector_store_def np_array_def spec_faiss_def spec_from_embeddings_def
          VectorStoreManager_init_def ex_docs_def ex_embs_def)
  have l: "int (length ex_docs) \<le> 7" by (simp add: ex_docs_def)
  show ?thesis using search_returns_all_ranked [OF b l, of "[1, 0]"] b l by simp
qed

section \<open>Properties of the retriever\<close>

text \<open>
  Claim C7. \<open>retrieve_multimodal\<close> with a \<open>query_type\<close> other than \<open>"text"\<close> and
  \<open>"image"\<close> raises \<open>ValueError\<close> and makes no call to the embedding provider or to
  the vector store: its trace is empty.
\<close>

theorem retrieve_multimodal_invalid_kind:
  "query_type \<noteq> ''text'' \<Longrightarrow> query_type \<noteq> ''image'' \<Longrightarrow>
   retrieve_multimodal P lib vsm q query_type k
     = (Inl (ValueError (''Unsupported query type: '' @ query_type)), [])"
  by (simp add: retrieve_multimodal_def)

theorem retrieve_multimodal_invalid_kind_witness:
  "''audio'' \<noteq> ''text'' \<and> ''audio'' \<noteq> ''image''
   \<and> retrieve_multimodal ex_provider spec_faiss ex_manager (TextQ ''what is shown?'') ''audio'' (Some 3)
     = (Inl (ValueError ''Unsupported query type: audio''), [])"
  using retrieve_multimodal_invalid_kind
          [of "''audio''" ex_provider spec_faiss ex_manager "TextQ ''what is shown?''" "Some 3"]
  by simp

text \<open>
  Claim C10. \<open>k = 0\<close> behaves as \<open>k = None\<close> in \<open>search_by_vector\<close> and in every
  retrieve operation, for every library and provider: on an installed index, each of
  them (with a query the provider embeds) searches the library with \<open>k = 5\<close>. With the
  index of the specification each returns \<open>min 5 n\<close> units.
\<close>

theorem zero_k_is_default_k:
  "search_by_vector lib vsm q (Some 0) = search_by_vector lib vsm q None
   \<and> retrieve_by_text P lib vsm t (Some 0) = retrieve_by_text P lib vsm t None
   \<and> retrieve_by_image P lib vsm t (Some 0) = retrieve_by_image P lib vsm t None
   \<and> retrieve_multimodal P lib vsm t query_type (Some 0)
       = retrieve_multimodal P lib vsm t query_type None
   \<and> get_similar_documents lib vsm q (Some 0) = get_similar_documents lib vsm q None
   \<and> (vector_store vsm = Some vs \<longrightarrow>
        search_by_vector lib vsm q (Some 0) = similarity_search_by_vector lib vs q 5
        \<and> get_similar_documents lib vsm q (Some 0)
            = (similarity_search_by_vector lib vs q 5, [SearchByVector q 5])
        \<and> (embed_text P t = Inr q \<longrightarrow>
             retrieve_by_text P lib vsm t (Some 0)
               = (similarity_search_by_vector lib vs q 5, [EmbedText t, SearchByVector q 5])
             \<and> retrieve_multimodal P lib vsm t ''text'' (Some 0)
               = (similarity_search_by_vector lib vs q 5, [EmbedText t, SearchByVector q 5]))
        \<and> (embed_image P t = Inr q \<longrightarrow>
             retrieve_by_image P lib vsm t (Some 0)
               = (similarity_search_by_vector lib vs q 5, [EmbedImage t, SearchByVector q 5])
             \<and> retrieve_multimodal P lib vsm t ''image'' (Some 0)
               = (similarity_search_by_vector lib vs q 5, [EmbedImage t, SearchByVector q 5]))
        \<and> (\<exists>res. length res = min 5 (length vs)
             \<and> search_by_vector spec_faiss vsm q (Some 0) = Inr res
             \<and> fst (get_similar_documents spec_faiss vsm q (Some 0)) = Inr res
             \<and> (embed_text P t = Inr q \<longrightarrow>
                  fst (retrieve_by_text P spec_faiss vsm t (Some 0)) = Inr res
                  \<and> fst (retrieve_multimodal P spec_faiss vsm t ''text'' (Some 0)) = Inr res)
             \<and> (embed_image P t = Inr q \<longrightarrow>
                  fst (retrieve_by_image P spec_faiss vsm t (Some 0)) = Inr res
                  \<and> fst (retrieve_multimodal P spec_faiss vsm t ''image'' (Some 0)) = Inr res)))"
proof -
  have same: "search_by_vector lib vsm q (Some 0) = search_by_vector lib vsm q None"
    "retrieve_by_text P lib vsm t (Some 0) = retrieve_by_text P lib vsm t None"
    "retrieve_by_image P lib vsm t (Some 0) = retrieve_by_image P lib vsm t None"
    "retrieve_multimodal P lib vsm t query_type (Some 0)
       = retrieve_multimodal P lib vsm t query_type None"
    "get_similar_documents lib vsm q (Some 0) = get_similar_documents lib vsm q None"
    by (simp_all add: search_by_vector_def retrieve_by_text_def retrieve_by_image_def
        retrieve_multimodal_def get_similar_documents_def py_or_def
        split: option.splits sum.splits)
  have five: "search_by_vector l vsm q (Some 0) = similarity_search_by_vector l vs q 5"
    "get_similar_documents l vsm q (Some 0)
            = (similarity_search_by_vector l vs q 5, [SearchByVector q 5])"
    "embed_text P t = Inr q \<Longrightarrow>
       retrieve_by_text P l vsm t (Some 0)
         = (similarity_search_by_vector l vs q 5, [EmbedText t, SearchByVector q 5])"
    "embed_text P t = Inr q \<Longrightarrow>
       retrieve_multimodal P l vsm t ''text'' (Some 0)
         = (similarity_search_by_vector l vs q 5, [EmbedText t, SearchByVector q 5])"
    "embed_image P t = Inr q \<Longrightarrow>
       retrieve_by_image P l vsm t (Some 0)
         = (similarity_search_by_vector l vs q 5, [EmbedImage t, SearchByVector q 5])"
    "embed_image P t = Inr q \<Longrightarrow>
       retrieve_multimodal P l vsm t ''image'' (Some 0)
         = (similarity_search_by_vector l vs q 5, [EmbedImage t, SearchByVector q 5])"
    if "vector_store vsm = Some vs" for l
    using that
    by (simp_all add: search_by_vector_def retrieve_by_text_def retrieve_by_image_def
        retrieve_multimodal_def get_similar_documents_def py_or_def DEFAULT_K_def)
  obtain res where res: "similarity_search_by_vector spec_faiss vs q 5 = Inr res"
    "length res = min 5 (length vs)"
    by (simp add: spec_faiss_def spec_similarity_search_by_vector_def)
  show ?thesis
    using same five [of lib] five [of spec_faiss] res by simp
qed

theorem zero_k_is_default_k_witness:
  "vector_store ex_manager = Some (zip ex_docs ex_embs)
   \<and> embed_text ex_provider (TextQ ''a'') = Inr [1, 0]
   \<and> retrieve_multimodal ex_provider spec_faiss ex_manager (TextQ ''a'') ''text'' (Some 0)
       = (similarity_search_by_vector spec_faiss (zip ex_docs ex_embs) [1, 0] 5,
          [EmbedText (TextQ ''a''), SearchByVector [1, 0] 5])
   \<and> (\<exists>res. length res = min 5 (length (zip ex_docs ex_embs))
         \<and> search_by_vector spec_faiss ex_manager [1, 0] (Some 0) = Inr res
         \<and> fst (get_similar_documents spec_faiss ex_manager [1, 0] (Some 0)) = Inr res
         \<and> fst (retrieve_by_text ex_provider spec_faiss ex_manager (TextQ ''a'') (Some 0))
             = Inr res
         \<and> fst (retrieve_multimodal ex_provider spec_faiss ex_manager (TextQ ''a'') ''text''
                  (Some 0)) = Inr res)
   \<and> search_by_vector spec_faiss ex_manager [1, 0] (Some 0)
       = Inr [ex_docs ! 2, ex_docs ! 1, ex_docs ! 0]"
proof -
  have v: "vector_store ex_manager = Some (zip ex_docs ex_embs)"
    by (simp add: ex_manager_def)
  have e: "embed_text ex_provider (TextQ ''a'') = Inr [1, 0]"
    by (simp add: ex_provider_def)
  note t = zero_k_is_default_k [where lib = spec_faiss and vsm = ex_manager and q = "[1, 0]"
      and P = ex_provider and t = "TextQ ''a''" and vs = "zip ex_docs ex_embs"]
  from t v e have a: "retrieve_multimodal ex_provider spec_faiss ex_manager (TextQ ''a'') ''text''
        (Some 0)
       = (similarity_search_by_vector spec_faiss (zip ex_docs ex_embs) [1, 0] 5,
          [EmbedText (TextQ ''a''), SearchByVector [1, 0] 5])"
    by blast
  from t v e have b: "\<exists>res. length res = min 5 (length (zip ex_docs ex_embs))
         \<and> search_by_vector spec_faiss ex_manager [1, 0] (Some 0) = Inr res
         \<and> fst (get_similar_documents spec_faiss ex_manager [1, 0] (Some 0)) = Inr res
         \<and> fst (retrieve_by_text ex_provider spec_faiss ex_manager (TextQ ''a'') (Some 0))
             = Inr res
         \<and> fst (retrieve_multimodal ex_provider spec_faiss ex_manager (TextQ ''a'') ''text''
                  (Some 0)) = Inr res"
    by blast
  have c: "search_by_vector spec_faiss ex_manager [1, 0] (Some 0)
       = Inr [ex_docs ! 2, ex_docs ! 1, ex_docs ! 0]"
    by (simp add: search_by_vector_def spec_faiss_def spec_similarity_search_by_vector_def
          py_or_def ex_docs_def ex_embs_def cosine_similarity_def dot_def DEFAULT_K_def
          ex_manager_def)
  from v e a b c show ?thesis by blast
qed

section \<open>Properties of the PDF processor\<close>

lemma embed_chunks_eq:
  "embed_chunks P cs (docs, embs) =
     (docs @ map fst (List.map_filter (text_unit P) cs),
      embs @ map snd (List.map_filter (text_unit P) cs))"
  by (induction cs arbitrary: docs embs)
     (simp_all add: map_filter_simps text_unit_def split: sum.splits)

lemma process_page_text_eq:
  "get_text pg = Inr content \<Longrightarrow>
   process_page_text P E pg i =
     Inr (map fst (List.map_filter (text_unit P) (page_chunks E i pg)),
          map snd (List.map_filter (text_unit P) (page_chunks E i pg)))"
  by (simp add: process_page_text_def page_chunks_def split_documents_def embed_chunks_eq
        map_filter_simps Let_def)

lemma process_image_units:
  "\<exists>st'. process_image P E pg i ix (docs, embs, st) =
     (docs @ map fst (List.map_filter (image_unit P E pg i) [ix]),
      embs @ map snd (List.map_filter (image_unit P E pg i) [ix]), st')"
  by (cases ix) (simp add: process_image_def image_unit_def map_filter_simps Let_def
        split: sum.splits)

lemma process_images_eq:
  "\<exists>st'. process_images P E pg i ixs (docs, embs, st) =
     (docs @ map fst (List.map_filter (image_unit P E pg i) ixs),
      embs @ map snd (List.map_filter (image_unit P E pg i) ixs), st')"
proof (induction ixs arbitrary: docs embs st)
  case Nil
  then show ?case by (simp add: map_filter_simps)
next
  case (Cons ix ixs)
  obtain st1 where s1: "process_image P E pg i ix (docs, embs, st) =
     (docs @ map fst (List.map_filter (image_unit P E pg i) [ix]),
      embs @ map snd (List.map_filter (image_unit P E pg i) [ix]), st1)"
    using process_image_units by blast
  from Cons.IH [of "docs @ map fst (List.map_filter (image_unit P E pg i) [ix])"
      "embs @ map snd (List.map_filter (image_unit P E pg i) [ix])" st1]
  show ?case
    by (auto simp: s1 map_filter_simps split: option.splits)
qed

lemma process_page_images_eq:
  "get_images pg = Inr imgs \<Longrightarrow>
   \<exists>st'. process_page_images P E pg i =
     Inr (map fst (List.map_filter (image_unit P E pg i) (page_image_refs pg)),
          map snd (List.map_filter (image_unit P E pg i) (page_image_refs pg)), st')"
  using process_images_eq [of P E pg i "enumerate 0 imgs" "[]" "[]" Map.empty]
  by (simp add: process_page_images_def page_image_refs_def)

lemma process_pages_units:
  "\<forall>ip\<in>set ips. page_parses (snd ip) \<Longrightarrow>
   \<exists>st'. process_pages P E ips (docs, embs, st) =
     Inr (docs @ map fst (concat (map (page_units P E) ips)),
          embs @ map snd (concat (map (page_units P E) ips)), st')"
proof (induction ips arbitrary: docs embs st)
  case Nil
  then show ?case by simp
next
  case (Cons ip ips)
  obtain i pg where ip: "ip = (i, pg)" by (cases ip)
  from Cons.prems ip have pp: "\<not> isl (get_text pg)" "\<not> isl (get_images pg)"
    by (simp_all add: page_parses_def)
  from pp(1) obtain content where g1: "get_text pg = Inr content"
    by (cases "get_text pg") simp_all
  from pp(2) obtain imgs where g2: "get_images pg = Inr imgs"
    by (cases "get_images pg") simp_all
  note g = g1 g2
  obtain st1 where im: "process_page_images P E pg i =
     Inr (map fst (List.map_filter (image_unit P E pg i) (page_image_refs pg)),
          map snd (List.map_filter (image_unit P E pg i) (page_image_refs pg)), st1)"
    using process_page_images_eq [OF g(2)] by blast
  have rest: "\<forall>ip\<in>set ips. page_parses (snd ip)" using Cons.prems by simp
  define tu where "tu = List.map_filter (text_unit P) (page_chunks E i pg)"
  define iu where "iu = List.map_filter (image_unit P E pg i) (page_image_refs pg)"
  from Cons.IH [OF rest, of "docs @ map fst tu @ map fst iu" "embs @ map snd tu @ map snd iu"
      "st ++ st1"]
  obtain st2 where "process_pages P E ips
      (docs @ map fst tu @ map fst iu, embs @ map snd tu @ map snd iu, st ++ st1) =
     Inr ((docs @ map fst tu @ map fst iu) @ map fst (concat (map (page_units P E) ips)),
          (embs @ map snd tu @ map snd iu) @ map snd (concat (map (page_units P E) ips)), st2)"
    by blast
  moreover have "page_units P E (i, pg) = tu @ iu"
    by (simp add: page_units_def tu_def iu_def)
  ultimately show ?case
    by (simp add: ip process_page_text_eq [OF g(1)] im tu_def iu_def)
qed

lemma process_pages_parse_failure:
  "\<exists>ip\<in>set ips. \<not> page_parses (snd ip) \<Longrightarrow> isl (process_pages P E ips acc)"
proof (induction ips arbitrary: acc)
  case Nil
  then show ?case by simp
next
  case (Cons ip ips)
  obtain i pg where ip: "ip = (i, pg)" by (cases ip)
  obtain docs embs st where acc: "acc = (docs, embs, st)" by (cases acc)
  show ?case
  proof (cases "page_parses pg")
    case False
    show ?thesis
    proof (cases "get_text pg")
      case (Inl e)
      then show ?thesis by (simp add: ip acc process_page_text_def)
    next
      case (Inr content)
      with False obtain e where "get_images pg = Inl e"
        by (cases "get_images pg") (simp_all add: page_parses_def)
      then have "process_page_images P E pg i = Inl e"
        by (simp add: process_page_images_def)
      then show ?thesis
        by (simp add: ip acc process_page_text_eq [OF Inr])
    qed
  next
    case True
    with Cons.prems ip have "\<exists>ip\<in>set ips. \<not> page_parses (snd ip)" by auto
    then have "\<And>acc'. isl (process_pages P E ips acc')" by (rule Cons.IH)
    then show ?thesis by (simp add: ip acc split: sum.splits prod.splits)
  qed
qed

text \<open>
  Claim C6. A failure to open the document is the result of \<open>process_pdf\<close>; so is a
  failure to read a page. When the document opens and its pages read, \<open>process_pdf\<close>
  returns, and its units and embeddings are exactly the units whose own attempt
  succeeded, in order: one failing chunk or image removes that unit and nothing else.
\<close>

theorem ingest_failure_policy:
  "(open_pdf E src = Inl e \<longrightarrow> process_pdf P E src = Inl e)
   \<and> (open_pdf E src = Inr pages \<and> (\<exists>pg\<in>set pages. \<not> page_parses pg)
        \<longrightarrow> isl (process_pdf P E src))
   \<and> (open_pdf E src = Inr pages \<and> (\<forall>pg\<in>set pages. page_parses pg)
        \<longrightarrow> (\<exists>image_store. process_pdf P E src =
               Inr (map fst (concat (map (page_units P E) (enumerate 0 pages))),
                    map snd (concat (map (page_units P E) (enumerate 0 pages))),
                    image_store)))"
proof -
  have snd_enum: "snd ` set (enumerate 0 pages) = set pages"
    by (metis map_snd_enumerate set_map)
  have p1: "process_pdf P E src = Inl e" if "open_pdf E src = Inl e"
    using that by (simp add: process_pdf_def)
  have p2: "isl (process_pdf P E src)"
    if a: "open_pdf E src = Inr pages \<and> (\<exists>pg\<in>set pages. \<not> page_parses pg)"
  proof -
    from a obtain pg where pg: "pg \<in> set pages" "\<not> page_parses pg" by blast
    from pg(1) have "pg \<in> snd ` set (enumerate 0 pages)" by (simp only: snd_enum)
    then obtain ip where "ip \<in> set (enumerate 0 pages)" "snd ip = pg"
      by (auto simp: image_iff)
    with pg(2) have "\<exists>ip\<in>set (enumerate 0 pages). \<not> page_parses (snd ip)"
      by (intro bexI [of _ ip]) simp_all
    then show ?thesis
      using a by (simp add: process_pdf_def process_pages_parse_failure)
  qed
  have p3: "\<exists>image_store. process_pdf P E src =
               Inr (map fst (concat (map (page_units P E) (enumerate 0 pages))),
                    map snd (concat (map (page_units P E) (enumerate 0 pages))),
                    image_store)"
    if a: "open_pdf E src = Inr pages \<and> (\<forall>pg\<in>set pages. page_parses pg)"
  proof -
    have "\<forall>ip\<in>set (enumerate 0 pages). snd ip \<in> set pages"
      using snd_enum by (metis imageI)
    with a have "\<forall>ip\<in>set (enumerate 0 pages). page_parses (snd ip)"
      by simp
    from process_pages_units [OF this, of P E "[]" "[]" Map.empty] show ?thesis
      using a by (simp add: process_pdf_def)
  qed
  from p1 p2 p3 show ?thesis by blast
qed

text \<open>The example environment, evaluated.\<close>

lemma image_ids_small:
  "image_id_of 0 0 = ''page_0_img_0''" "image_id_of 0 (Suc 0) = ''page_0_img_1''"
  "image_id_of 0 2 = ''page_0_img_2''" "image_id_of (Suc 0) 0 = ''page_1_img_0''"
  by (simp_all add: image_id_of_def str_int_def string_of_nat.simps digit_char_def)

lemma ex_report:
  "process_pdf ex_provider ex_env (PdfPath ''report.pdf'')
     = Inr (ex_report_docs, ex_report_embs, ex_report_store)"
  by (simp add: process_pdf_def open_pdf_def ex_env_def ex_page0_def ex_page1_def
        process_page_text_def split_documents_def
        strip_def py_isspace_def process_page_images_def process_image_def ex_extract_def
        ex_provider_def MAX_IMAGE_SIZE_def IMAGE_FORMAT_def image_ids_small
        ex_report_docs_def ex_report_embs_def ex_report_store_def image_doc_of_def Let_def)

lemma ex_report_units:
  "concat (map (page_units ex_provider ex_env) (enumerate 0 [ex_page0, ex_page1]))
     = zip ex_report_docs ex_report_embs"
  by (simp add: page_units_def page_chunks_def page_image_refs_def text_unit_def image_unit_def
        ex_env_def ex_page0_def ex_page1_def strip_def py_isspace_def ex_extract_def
        ex_provider_def MAX_IMAGE_SIZE_def IMAGE_FORMAT_def image_ids_small
        ex_report_docs_def ex_report_embs_def image_doc_of_def)

theorem ingest_failure_policy_witness:
  "open_pdf ex_env (PdfBytes ''%PDF'') = Inl (ExternalError ''not a pdf'')
   \<and> process_pdf ex_provider ex_env (PdfBytes ''%PDF'') = Inl (ExternalError ''not a pdf'')
   \<and> open_pdf ex_env (PdfPath ''damaged.pdf'') = Inr [ex_page_fig, ex_page_damaged]
   \<and> \<not> page_parses ex_page_damaged
   \<and> isl (process_pdf ex_provider ex_env (PdfPath ''damaged.pdf''))
   \<and> open_pdf ex_env (PdfPath ''report.pdf'') = Inr [ex_page0, ex_page1]
   \<and> page_parses ex_page0 \<and> page_parses ex_page1
   \<and> (\<exists>image_store. process_pdf ex_provider ex_env (PdfPath ''report.pdf'') =
         Inr (map fst (zip ex_report_docs ex_report_embs),
              map snd (zip ex_report_docs ex_report_embs), image_store))"
proof -
  have o1: "open_pdf ex_env (PdfBytes ''%PDF'') = Inl (ExternalError ''not a pdf'')"
    by (simp add: open_pdf_def ex_env_def)
  have o2: "open_pdf ex_env (PdfPath ''damaged.pdf'') = Inr [ex_page_fig, ex_page_damaged]"
    by (simp add: open_pdf_def ex_env_def)
  have o3: "open_pdf ex_env (PdfPath ''report.pdf'') = Inr [ex_page0, ex_page1]"
    by (simp add: open_pdf_def ex_env_def)
  have d: "\<not> page_parses ex_page_damaged"
    by (simp add: page_parses_def ex_page_damaged_def)
  have p: "page_parses ex_page0" "page_parses ex_page1"
    by (simp_all add: page_parses_def ex_page0_def ex_page1_def)
  from ingest_failure_policy [where E = ex_env and src = "PdfBytes ''%PDF''"
      and e = "ExternalError ''not a pdf''" and P = ex_provider] o1
  have r1: "process_pdf ex_provider ex_env (PdfBytes ''%PDF'') = Inl (ExternalError ''not a pdf'')"
    by blast
  from ingest_failure_policy [where E = ex_env and src = "PdfPath ''damaged.pdf''"
      and pages = "[ex_page_fig, ex_page_damaged]" and P = ex_provider] o2 d
  have r2: "isl (process_pdf ex_provider ex_env (PdfPath ''damaged.pdf''))"
    by simp
  from ingest_failure_policy [where E = ex_env and src = "PdfPath ''report.pdf''"
      and pages = "[ex_page0, ex_page1]" and P = ex_provider] o3 p
  have r3: "\<exists>image_store. process_pdf ex_provider ex_env (PdfPath ''report.pdf'') =
         Inr (map fst (zip ex_report_docs ex_report_embs),
              map snd (zip ex_report_docs ex_report_embs), image_store)"
    by (simp only: ex_report_units) simp
  from o1 r1 o2 d r2 o3 p r3 show ?thesis by blast
qed

subsection \<open>Order of the output\<close>

lemma set_map_filter_iff:
  "u \<in> set (List.map_filter f xs) \<longleftrightarrow> (\<exists>x\<in>set xs. f x = Some u)"
  by (induction xs) (auto simp: map_filter_simps split: option.splits)

lemma image_id_of_nonempty: "image_id_of p i \<noteq> []"
  by (simp add: image_id_of_def)

lemma text_unit_props:
  assumes "u \<in> set (List.map_filter (text_unit P) (page_chunks E i pg))"
  shows "doc_page (fst u) = Some (int i) \<and> is_text_doc (fst u) \<and> \<not> is_image_doc (fst u)
         \<and> content_unit (fst u)"
proof -
  from assms obtain c where c: "c \<in> set (page_chunks E i pg)" "text_unit P c = Some u"
    by (auto simp: set_map_filter_iff)
  from c(1) obtain s where md: "c = \<lparr>page_content = s,
      metadata = [(''page'', PInt (int i)), (''type'', PStr ''text'')]\<rparr>"
    by (auto simp: page_chunks_def split: sum.splits if_splits)
  from c(2) have u: "fst u = c"
    by (auto simp: text_unit_def split: sum.splits)
  have "content_unit c"
    unfolding content_unit_def md by blast
  then show ?thesis
    using md u by (simp add: doc_page_def is_text_doc_def is_image_doc_def)
qed

lemma image_unit_props:
  assumes "u \<in> set (List.map_filter (image_unit P E pg i) ixs)"
  shows "doc_page (fst u) = Some (int i) \<and> is_image_doc (fst u) \<and> \<not> is_text_doc (fst u)
         \<and> content_unit (fst u)"
proof -
  from assms obtain ix where "image_unit P E pg i ix = Some u"
    by (auto simp: set_map_filter_iff)
  then have u: "fst u = image_doc_of i (image_id_of i (fst ix))"
    by (auto simp: image_unit_def split: sum.splits)
  have "content_unit (fst u)"
    unfolding content_unit_def u by blast
  then show ?thesis
    using u by (simp add: doc_page_def is_text_doc_def is_image_doc_def image_doc_of_def)
qed

lemma page_units_props:
  assumes "u \<in> set (page_units P E (i, pg))"
  shows "doc_page (fst u) = Some (int i) \<and> content_unit (fst u)
         \<and> (is_text_doc (fst u) \<or> is_image_doc (fst u))"
  using assms text_unit_props [of u P E i pg] image_unit_props [of u P E pg i "page_image_refs pg"]
  by (auto simp: page_units_def)

lemma sorted_wrt_all_pairs:
  "(\<forall>x\<in>set xs. \<forall>y\<in>set xs. R x y) \<Longrightarrow> sorted_wrt R xs"
  by (induction xs) simp_all

lemma page_units_sorted: "sorted_wrt unit_order (map fst (page_units P E (i, pg)))"
proof -
  define tu where "tu = List.map_filter (text_unit P) (page_chunks E i pg)"
  define iu where "iu = List.map_filter (image_unit P E pg i) (page_image_refs pg)"
  have t: "\<forall>u\<in>set tu. doc_page (fst u) = Some (int i) \<and> \<not> is_image_doc (fst u)"
    using text_unit_props unfolding tu_def by blast
  have i: "\<forall>u\<in>set iu. doc_page (fst u) = Some (int i) \<and> \<not> is_text_doc (fst u)"
    using image_unit_props unfolding iu_def by blast
  have "sorted_wrt unit_order (map fst tu)"
    using t by (intro sorted_wrt_all_pairs) (simp add: unit_order_def)
  moreover have "sorted_wrt unit_order (map fst iu)"
    using i by (intro sorted_wrt_all_pairs) (simp add: unit_order_def)
  moreover have "\<forall>a\<in>set tu. \<forall>b\<in>set iu. unit_order (fst a) (fst b)"
    using t i by (simp add: unit_order_def)
  ultimately show ?thesis
    by (simp add: page_units_def tu_def [symmetric] iu_def [symmetric] sorted_wrt_append)
qed

lemma units_pages_from:
  "u \<in> set (concat (map (page_units P E) (enumerate n pgs))) \<Longrightarrow>
   \<exists>p\<ge>n. doc_page (fst u) = Some (int p)"
proof (induction pgs arbitrary: n)
  case Nil
  then show ?case by simp
next
  case (Cons pg pgs)
  from Cons.prems consider "u \<in> set (page_units P E (n, pg))"
    | "u \<in> set (concat (map (page_units P E) (enumerate (Suc n) pgs)))"
    by auto
  then show ?case
  proof cases
    case 1
    then show ?thesis using page_units_props by blast
  next
    case 2
    from Cons.IH [OF 2] show ?thesis by (meson Suc_leD)
  qed
qed

lemma units_sorted:
  "sorted_wrt unit_order (map fst (concat (map (page_units P E) (enumerate n pgs))))"
proof (induction pgs arbitrary: n)
  case Nil
  then show ?case by simp
next
  case (Cons pg pgs)
  define A where "A = page_units P E (n, pg)"
  define B where "B = concat (map (page_units P E) (enumerate (Suc n) pgs))"
  have cross: "unit_order (fst a) (fst b)" if "a \<in> set A" and "b \<in> set B" for a b
  proof -
    from that(1) have "doc_page (fst a) = Some (int n)"
      unfolding A_def using page_units_props by blast
    moreover from that(2) obtain p where "Suc n \<le> p" "doc_page (fst b) = Some (int p)"
      unfolding B_def using units_pages_from by blast
    ultimately show ?thesis by (simp add: unit_order_def)
  qed
  have sA: "sorted_wrt unit_order (map fst A)"
    unfolding A_def by (rule page_units_sorted)
  have sB: "sorted_wrt unit_order (map fst B)"
    unfolding B_def by (rule Cons.IH)
  have "concat (map (page_units P E) (enumerate n (pg # pgs))) = A @ B"
    by (simp add: A_def B_def)
  then show ?case
    using cross sA sB by (auto simp: sorted_wrt_append)
qed

lemma units_content_units:
  "u \<in> set (concat (map (page_units P E) ips)) \<Longrightarrow> content_unit (fst u)"
  using page_units_props by (cases u) fastforce

lemma process_pdf_Inr_units:
  assumes "process_pdf P E src = Inr (docs, embs, image_store)"
  shows "\<exists>pages. open_pdf E src = Inr pages
           \<and> docs = map fst (concat (map (page_units P E) (enumerate 0 pages)))
           \<and> embs = map snd (concat (map (page_units P E) (enumerate 0 pages)))"
proof -
  from assms obtain pages where op: "open_pdf E src = Inr pages"
    and pp: "process_pages P E (enumerate 0 pages) ([], [], Map.empty) = Inr (docs, embs, image_store)"
    by (auto simp: process_pdf_def split: sum.splits)
  have "\<forall>ip\<in>set (enumerate 0 pages). page_parses (snd ip)"
  proof (rule ccontr)
    assume "\<not> ?thesis"
    then have "\<exists>ip\<in>set (enumerate 0 pages). \<not> page_parses (snd ip)" by simp
    from process_pages_parse_failure [OF this, of P E "([], [], Map.empty)"] pp
    show False by simp
  qed
  from process_pages_units [OF this, of P E "[]" "[]" Map.empty] pp op
  show ?thesis by auto
qed

lemma ingested_units_are_content_units:
  assumes "process_pdf P E src = Inr (docs, embs, image_store)"
  shows "\<forall>d\<in>set docs. content_unit d"
proof -
  from process_pdf_Inr_units [OF assms] obtain pages where
    d: "docs = map fst (concat (map (page_units P E) (enumerate 0 pages)))"
    by blast
  show ?thesis
    unfolding d using units_content_units [of _ P E "enumerate 0 pages"] by auto
qed

text \<open>
  Claim C4. Whenever \<open>process_pdf\<close> returns, its units and embeddings have the same
  length and are parallel: position by position they are the units of the pages, each
  with its own embedding, page after page and the text chunks of a page before its
  images. So the units are in increasing page order, and within a page no image unit
  precedes a text chunk.
\<close>

theorem ingest_output_order:
  assumes "process_pdf P E src = Inr (docs, embs, image_store)"
  shows "length docs = length embs
         \<and> (\<exists>pages. open_pdf E src = Inr pages
               \<and> zip docs embs = concat (map (page_units P E) (enumerate 0 pages)))
         \<and> sorted_wrt unit_order docs"
proof -
  from process_pdf_Inr_units [OF assms] obtain pages where
    o: "open_pdf E src = Inr pages" and
    d: "docs = map fst (concat (map (page_units P E) (enumerate 0 pages)))" and
    e: "embs = map snd (concat (map (page_units P E) (enumerate 0 pages)))"
    by blast
  have "zip docs embs = concat (map (page_units P E) (enumerate 0 pages))"
    unfolding d e by (simp add: zip_map_fst_snd)
  moreover have "sorted_wrt unit_order docs"
    unfolding d by (rule units_sorted)
  moreover have "length docs = length embs" by (simp add: d e)
  ultimately show ?thesis using o by blast
qed

theorem ingest_output_order_witness:
  "process_pdf ex_provider ex_env (PdfPath ''report.pdf'')
     = Inr (ex_report_docs, ex_report_embs, ex_report_store)
   \<and> length ex_report_docs = length ex_report_embs
   \<and> open_pdf ex_env (PdfPath ''report.pdf'') = Inr [ex_page0, ex_page1]
   \<and> zip ex_report_docs ex_report_embs
       = concat (map (page_units ex_provider ex_env) (enumerate 0 [ex_page0, ex_page1]))
   \<and> sorted_wrt unit_order ex_report_docs"
proof -
  have o: "open_pdf ex_env (PdfPath ''report.pdf'') = Inr [ex_page0, ex_page1]"
    by (simp add: open_pdf_def ex_env_def)
  from ingest_output_order [OF ex_report] o ex_report ex_report_units show ?thesis
    by simp
qed

subsection \<open>The image store\<close>

text \<open>
  Claim C5, at \<open>figure.pdf\<close>: one page, one image, which decodes and re-encodes but
  cannot be embedded. \<open>_process_page_images\<close> writes \<open>image_store[image_id]\<close> before it
  calls \<open>embed_image\<close>, and the handler keeps the entry: the output has no unit and no
  embedding, and the store has the entry \<open>page_0_img_0\<close>.
\<close>

theorem unembedded_image_stays_in_store:
  "process_pdf ex_provider ex_env (PdfPath ''figure.pdf'')
     = Inr ([], [], [''page_0_img_0'' \<mapsto> ''b64:unembeddable''])"
  by (simp add: process_pdf_def open_pdf_def ex_env_def ex_page_fig_def process_page_text_def
        strip_def process_page_images_def process_image_def ex_extract_def ex_provider_def
        MAX_IMAGE_SIZE_def IMAGE_FORMAT_def image_ids_small)

section \<open>Properties of the response generator\<close>

lemma image_urls_append: "image_urls (a @ b) = image_urls a @ image_urls b"
  by (induction a rule: image_urls.induct) simp_all

lemma shown_image_lookup: "is_image_doc d \<Longrightarrow> shown_image d st = lookup_image d st"
  by (simp add: shown_image_def)

lemma not_text_and_image: "is_text_doc d \<Longrightarrow> \<not> is_image_doc d"
  by (simp add: is_text_doc_def is_image_doc_def)

lemma add_images_urls:
  "add_images pre ds st content = Inr content' \<Longrightarrow>
   image_urls content' = image_urls content @
     List.map_filter (\<lambda>d. map_option (\<lambda>payload. ''data:image/png;base64,'' @ payload)
        (lookup_image d st)) ds"
proof (induction ds arbitrary: content)
  case Nil
  then show ?case by (simp add: map_filter_simps)
next
  case (Cons d ds)
  show ?case
  proof (cases "lookup_image d st")
    case None
    with Cons show ?thesis by (simp add: map_filter_simps)
  next
    case (Some payload)
    with Cons.prems obtain n where n: "page_plus_one d = Inr n"
      and r: "add_images pre ds st
            (content @ [TextBlock (pre @ ''[Image from page '' @ str_int n @ '']:'' @ nl),
                        ImageUrlBlock (''data:image/png;base64,'' @ payload)]) = Inr content'"
      by (auto split: sum.splits)
    from Cons.IH [OF r] Some show ?thesis
      by (simp add: map_filter_simps image_urls_append)
  qed
qed

lemma add_images_skip:
  "add_images pre (filter (\<lambda>d. lookup_image d st \<noteq> None) ds) st content
     = add_images pre ds st content"
  by (induction ds arbitrary: content) (auto split: option.splits sum.splits)

lemma filter_image_docs_urls:
  "List.map_filter (\<lambda>d. map_option f (lookup_image d st)) (filter is_image_doc docs)
     = List.map_filter (\<lambda>d. map_option f (shown_image d st)) docs"
proof (induction docs)
  case Nil
  then show ?case by (simp add: map_filter_simps)
next
  case (Cons a docs)
  show ?case
  proof (cases "is_image_doc a")
    case True
    then show ?thesis using Cons
      by (simp add: map_filter_simps shown_image_lookup split: option.splits)
  next
    case False
    then have "shown_image a st = None" by (simp add: shown_image_def)
    with False show ?thesis using Cons by (simp add: map_filter_simps)
  qed
qed

lemma filter_kept_text:
  "filter is_text_doc (filter (\<lambda>d. \<not> unshown_image st d) docs) = filter is_text_doc docs"
  by (induction docs) (auto simp: unshown_image_def not_text_and_image)

lemma filter_kept_image:
  "filter is_image_doc (filter (\<lambda>d. \<not> unshown_image st d) docs)
     = filter (\<lambda>d. lookup_image d st \<noteq> None) (filter is_image_doc docs)"
  by (induction docs) (auto simp: unshown_image_def)

lemma add_text_context_urls:
  "add_text_context title tds content = Inr content' \<Longrightarrow> image_urls content' = image_urls content"
  by (auto simp: add_text_context_def image_urls_append split: if_splits sum.splits)

lemma text_message_skips:
  "create_text_query_message q (filter (\<lambda>d. \<not> unshown_image st d) docs) st
     = create_text_query_message q docs st"
  by (simp only: create_text_query_message_def Let_def filter_kept_text filter_kept_image
        add_images_skip)

lemma text_message_urls:
  assumes "create_text_query_message q docs st = Inr content"
  shows "image_urls content = shown_image_urls docs st"
proof -
  from assms obtain c1 c2 where
    a: "add_text_context ''Text excerpts:'' (filter is_text_doc docs)
          [TextBlock (''Question: '' @ q @ nl @ nl @ ''Context:'' @ nl)] = Inr c1"
    and b: "add_images nl (filter is_image_doc docs) st c1 = Inr c2"
    and c: "content = c2 @ [TextBlock text_query_instruction]"
    by (auto simp: create_text_query_message_def Let_def split: sum.splits)
  from add_text_context_urls [OF a] have "image_urls c1 = []" by simp
  with add_images_urls [OF b] show ?thesis
    by (simp add: c image_urls_append filter_image_docs_urls shown_image_urls_def)
qed


lemma add_images_isl:
  "isl (add_images pre ds st content)
     \<longleftrightarrow> (\<exists>d\<in>set ds. lookup_image d st \<noteq> None \<and> isl (page_plus_one d))"
proof (induction ds arbitrary: content)
  case Nil
  then show ?case by simp
next
  case (Cons d ds)
  show ?case
  proof (cases "lookup_image d st")
    case None
    then show ?thesis using Cons.IH by simp
  next
    case (Some payload)
    then show ?thesis using Cons.IH by (cases "page_plus_one d") simp_all
  qed
qed

lemma add_text_context_isl:
  "isl (add_text_context title tds content) \<longleftrightarrow> isl (text_lines tds)"
  by (cases tds) (auto simp: add_text_context_def split: sum.splits)

lemma isl_case_sum:
  "isl (case m of Inl e \<Rightarrow> Inl e | Inr x \<Rightarrow> f x) \<longleftrightarrow> isl m \<or> (\<exists>x. m = Inr x \<and> isl (f x))"
  by (cases m) simp_all

lemma isl_after_text_context:
  assumes "\<And>c1. isl (f c1) = I"
  shows "isl (case add_text_context title tds c0 of Inl e \<Rightarrow> Inl e | Inr c1 \<Rightarrow> f c1)
           \<longleftrightarrow> isl (text_lines tds) \<or> I"
  using add_text_context_isl [of title tds c0] assms
  by (cases "add_text_context title tds c0") simp_all

lemma isl_images_then_instruction:
  "isl (case add_images pre (filter is_image_doc docs) st c1 of
          Inl e \<Rightarrow> Inl e | Inr c2 \<Rightarrow> Inr (g c2))
     \<longleftrightarrow> (\<exists>d\<in>set docs. is_image_doc d \<and> lookup_image d st \<noteq> None \<and> isl (page_plus_one d))"
  by (auto simp: isl_case_sum add_images_isl)

lemma isl_related_images_then_instruction:
  "isl (case (if filter is_image_doc docs \<noteq> []
              then add_images pre (filter is_image_doc docs) st c1 else Inr c1') of
          Inl e \<Rightarrow> Inl e | Inr c2 \<Rightarrow> Inr (g c2))
     \<longleftrightarrow> (\<exists>d\<in>set docs. is_image_doc d \<and> lookup_image d st \<noteq> None \<and> isl (page_plus_one d))"
proof (cases "filter is_image_doc docs = []")
  case True
  then have "\<forall>d\<in>set docs. \<not> is_image_doc d" by (simp add: filter_empty_conv)
  with True show ?thesis by auto
next
  case False
  then show ?thesis by (simp only: if_True not_False_eq_True isl_images_then_instruction)
qed

lemma text_message_isl:
  "isl (create_text_query_message q docs st)
     \<longleftrightarrow> isl (text_lines (filter is_text_doc docs))
         \<or> (\<exists>d\<in>set docs. is_image_doc d \<and> lookup_image d st \<noteq> None \<and> isl (page_plus_one d))"
  unfolding create_text_query_message_def Let_def
  by (rule isl_after_text_context) (rule isl_images_then_instruction)

lemma image_message_isl:
  "isl (create_image_query_message E img docs st)
     \<longleftrightarrow> isl (save_b64 E img ''PNG'') \<or> isl (text_lines (filter is_text_doc docs))
         \<or> (\<exists>d\<in>set docs. is_image_doc d \<and> lookup_image d st \<noteq> None \<and> isl (page_plus_one d))"
proof (cases "save_b64 E img ''PNG''")
  case (Inl e)
  then show ?thesis by (simp add: create_image_query_message_def)
next
  case (Inr b)
  have "isl (create_image_query_message E img docs st)
     \<longleftrightarrow> isl (text_lines (filter is_text_doc docs))
         \<or> (\<exists>d\<in>set docs. is_image_doc d \<and> lookup_image d st \<noteq> None \<and> isl (page_plus_one d))"
    unfolding create_image_query_message_def Let_def Inr sum.case
    by (rule isl_after_text_context) (rule isl_related_images_then_instruction)
  with Inr show ?thesis by simp
qed

lemma related_images_urls:
  assumes "(case add_text_context title (filter is_text_doc docs) c0 of
              Inl e \<Rightarrow> Inl e
            | Inr c1 \<Rightarrow>
               (case (if filter is_image_doc docs \<noteq> []
                      then add_images pre (filter is_image_doc docs) st (c1 @ [TextBlock h])
                      else Inr c1) of
                  Inl e \<Rightarrow> Inl e
                | Inr c2 \<Rightarrow> Inr (c2 @ [TextBlock t]))) = Inr content"
  shows "image_urls content = image_urls c0 @ shown_image_urls docs st"
proof -
  from assms obtain c1 c2 where
    a: "add_text_context title (filter is_text_doc docs) c0 = Inr c1"
    and i: "(if filter is_image_doc docs \<noteq> []
               then add_images pre (filter is_image_doc docs) st (c1 @ [TextBlock h])
               else Inr c1) = Inr c2"
    and c: "content = c2 @ [TextBlock t]"
    by (auto split: sum.splits)
  have "image_urls c2 = image_urls c1 @
     List.map_filter (\<lambda>d. map_option (\<lambda>payload. ''data:image/png;base64,'' @ payload)
        (lookup_image d st)) (filter is_image_doc docs)"
  proof (cases "filter is_image_doc docs = []")
    case True
    with i show ?thesis by (simp add: map_filter_simps)
  next
    case False
    with i have "add_images pre (filter is_image_doc docs) st (c1 @ [TextBlock h]) = Inr c2"
      by simp
    from add_images_urls [OF this] show ?thesis by (simp add: image_urls_append)
  qed
  with add_text_context_urls [OF a] show ?thesis
    by (simp add: c image_urls_append filter_image_docs_urls shown_image_urls_def)
qed

lemma image_message_urls:
  assumes "create_image_query_message E img docs st = Inr content"
  shows "\<exists>b. save_b64 E img ''PNG'' = Inr b
           \<and> image_urls content = (''data:image/png;base64,'' @ b) # shown_image_urls docs st"
proof -
  from assms obtain b where b: "save_b64 E img ''PNG'' = Inr b"
    by (cases "save_b64 E img ''PNG''") (simp_all add: create_image_query_message_def)
  from assms [unfolded create_image_query_message_def Let_def b sum.case]
  have "image_urls content =
          image_urls ([TextBlock image_query_intro,
             ImageUrlBlock (''data:image/png;base64,'' @ b)]
           @ [TextBlock (nl @ nl @ ''Related content from PDF:'' @ nl)])
          @ shown_image_urls docs st"
    by (rule related_images_urls)
  with b show ?thesis by simp
qed

subsection \<open>Content units\<close>

lemma content_unit_page: "content_unit d \<Longrightarrow> \<not> isl (page_plus_one d)"
  by (auto simp: content_unit_def page_plus_one_def image_doc_of_def)

lemma content_unit_shown: "content_unit d \<Longrightarrow> shown_image d st = stored_image d st"
  by (auto simp: content_unit_def shown_image_def stored_image_def lookup_image_def
        image_doc_of_def is_image_doc_def image_id_of_nonempty)

lemma map_filter_cong_set:
  "(\<And>x. x \<in> set xs \<Longrightarrow> f x = g x) \<Longrightarrow> List.map_filter f xs = List.map_filter g xs"
proof (induction xs)
  case Nil
  then show ?case by (simp add: map_filter_simps)
next
  case (Cons a xs)
  have "f a = g a" by (rule Cons.prems) simp
  moreover have "List.map_filter f xs = List.map_filter g xs"
    by (rule Cons.IH) (simp add: Cons.prems)
  ultimately show ?case by (simp add: map_filter_simps split: option.splits)
qed

lemma content_units_shown_urls:
  "\<forall>d\<in>set docs. content_unit d \<Longrightarrow> shown_image_urls docs st = stored_image_urls docs st"
  unfolding shown_image_urls_def stored_image_urls_def
  by (rule map_filter_cong_set) (simp add: content_unit_shown)

lemma content_units_unshown:
  "content_unit d \<Longrightarrow> unshown_image st d = unstored_image st d"
  using content_unit_shown [of d st]
  by (auto simp: unshown_image_def unstored_image_def shown_image_def stored_image_def)

lemma content_units_filter:
  "\<forall>d\<in>set docs. content_unit d \<Longrightarrow>
   filter (\<lambda>d. \<not> unshown_image st d) docs = filter (\<lambda>d. \<not> unstored_image st d) docs"
  by (rule filter_cong) (simp_all add: content_units_unshown)

lemma text_lines_isl: "isl (text_lines ds) \<longleftrightarrow> (\<exists>d\<in>set ds. isl (page_plus_one d))"
  by (induction ds) (auto split: sum.splits)

lemma content_units_text_message:
  assumes "\<forall>d\<in>set docs. content_unit d"
  shows "\<not> isl (create_text_query_message q docs st)"
  using assms by (auto simp: text_message_isl text_lines_isl content_unit_page)

lemma content_units_image_message:
  assumes "\<forall>d\<in>set docs. content_unit d"
  shows "isl (create_image_query_message E img docs st) \<longleftrightarrow> isl (save_b64 E img ''PNG'')"
  using assms by (auto simp: image_message_isl text_lines_isl content_unit_page)

text \<open>
  Claim C9. For every list of ContentUnits and every image store, the text-query message
  is built and its response is what the model answers to it; the image-query message is
  built whenever the query image can be encoded, and its response is what the model
  answers to it. The image blocks of the message are exactly those of the retrieved image
  units whose \<open>image_id\<close> is a key of the image store, in retrieval order (after the
  block of the query image, for an image query). An image unit whose \<open>image_id\<close> is not
  in the store is omitted silently: the text-query message is the one built without such
  units.
\<close>

theorem prompt_image_blocks:
  assumes "\<forall>d\<in>set docs. content_unit d"
  shows "(\<exists>content. create_text_query_message q docs st = Inr content
            \<and> image_urls content = stored_image_urls docs st
            \<and> process_text_query llm q docs st = llm content)
         \<and> (\<forall>b. save_b64 E img ''PNG'' = Inr b \<longrightarrow>
              (\<exists>content. create_image_query_message E img docs st = Inr content
                 \<and> image_urls content
                     = (''data:image/png;base64,'' @ b) # stored_image_urls docs st
                 \<and> process_image_query llm E img docs st = llm content))
         \<and> create_text_query_message q (filter (\<lambda>d. \<not> unstored_image st d) docs) st
             = create_text_query_message q docs st"
proof -
  from content_units_text_message [OF assms, of q st]
  obtain content where c: "create_text_query_message q docs st = Inr content"
    by (cases "create_text_query_message q docs st") simp_all
  have t: "\<exists>content. create_text_query_message q docs st = Inr content
            \<and> image_urls content = stored_image_urls docs st
            \<and> process_text_query llm q docs st = llm content"
    using c text_message_urls [OF c] content_units_shown_urls [OF assms, of st]
    by (simp add: process_text_query_def)
  have i: "\<exists>content. create_image_query_message E img docs st = Inr content
                 \<and> image_urls content
                     = (''data:image/png;base64,'' @ b) # stored_image_urls docs st
                 \<and> process_image_query llm E img docs st = llm content"
    if b: "save_b64 E img ''PNG'' = Inr b" for b
  proof -
    from content_units_image_message [OF assms, of E img st] b
    obtain content where m: "create_image_query_message E img docs st = Inr content"
      by (cases "create_image_query_message E img docs st") simp_all
    from image_message_urls [OF m] b content_units_shown_urls [OF assms, of st]
    have "image_urls content = (''data:image/png;base64,'' @ b) # stored_image_urls docs st"
      by auto
    with m show ?thesis by (simp add: process_image_query_def)
  qed
  have k: "create_text_query_message q (filter (\<lambda>d. \<not> unstored_image st d) docs) st
             = create_text_query_message q docs st"
    using text_message_skips [of q st docs] content_units_filter [OF assms, of st] by simp
  from t i k show ?thesis by blast
qed

lemma ex_message_eval:
  "create_text_query_message ''What is shown?'' ex_retrieved ex_image_store = Inr ex_message"
  by (simp add: create_text_query_message_def ex_retrieved_def ex_missing_image_def ex_docs_def
        ex_image_store_def ex_message_def is_text_doc_def is_image_doc_def add_text_context_def
        page_plus_one_def lookup_image_def str_int_def string_of_nat.simps digit_char_def)

lemma ex_retrieved_units: "\<forall>d\<in>set ex_retrieved. content_unit d"
proof -
  have "image_id_of 9 9 = ''page_9_img_9''"
    by (simp add: image_id_of_def str_int_def string_of_nat.simps digit_char_def)
  then have a: "ex_missing_image = image_doc_of 9 (image_id_of 9 9)"
    by (simp add: ex_missing_image_def image_doc_of_def)
  have "image_id_of 1 0 = ''page_1_img_0''"
    by (simp add: image_id_of_def str_int_def string_of_nat.simps digit_char_def)
  then have b: "ex_docs ! 2 = image_doc_of 1 (image_id_of 1 0)"
    by (simp add: ex_docs_def image_doc_of_def)
  have c: "ex_docs ! 0 = \<lparr>page_content = ''alpha'',
        metadata = [(''page'', PInt (int 0)), (''type'', PStr ''text'')]\<rparr>"
      "ex_docs ! 1 = \<lparr>page_content = ''beta'',
        metadata = [(''page'', PInt (int 0)), (''type'', PStr ''text'')]\<rparr>"
    by (simp_all add: ex_docs_def)
  have "content_unit ex_missing_image" "content_unit (ex_docs ! 2)"
    "content_unit (ex_docs ! 0)" "content_unit (ex_docs ! 1)"
    unfolding content_unit_def a b c by blast+
  moreover have "set ex_retrieved = {ex_missing_image, ex_docs ! 0, ex_docs ! 1, ex_docs ! 2}"
    by (simp add: ex_retrieved_def ex_docs_def)
  ultimately show ?thesis by simp
qed

theorem prompt_image_blocks_witness:
  "list_all content_unit ex_retrieved
   \<and> unstored_image ex_image_store ex_missing_image
   \<and> create_text_query_message ''What is shown?'' ex_retrieved ex_image_store = Inr ex_message
   \<and> image_urls ex_message = stored_image_urls ex_retrieved ex_image_store
   \<and> image_urls ex_message = [''data:image/png;base64,b64:photo'']
   \<and> create_text_query_message ''What is shown?''
        (filter (\<lambda>d. \<not> unstored_image ex_image_store d) ex_retrieved) ex_image_store
       = Inr ex_message"
proof -
  note t = prompt_image_blocks [OF ex_retrieved_units, where q = "''What is shown?''"
      and st = ex_image_store]
  from t ex_message_eval have a: "image_urls ex_message = stored_image_urls ex_retrieved ex_image_store"
    by auto
  from t ex_message_eval have b: "create_text_query_message ''What is shown?''
        (filter (\<lambda>d. \<not> unstored_image ex_image_store d) ex_retrieved) ex_image_store
       = Inr ex_message"
    by simp
  have c: "image_urls ex_message = [''data:image/png;base64,b64:photo'']"
    by (simp add: ex_message_def)
  have d: "unstored_image ex_image_store ex_missing_image"
    by (simp add: unstored_image_def stored_image_def is_image_doc_def ex_missing_image_def
          ex_image_store_def)
  have e: "list_all content_unit ex_retrieved"
    using ex_retrieved_units by (simp add: list_all_iff)
  from ex_message_eval a b c d e show ?thesis by simp
qed

end
